theory Spec2Isabelle
  imports Complex_Main
begin

section \<open>The Arkanoid game of \<^verbatim>\<open>src/components/ArkanoidGame.tsx\<close>\<close>

text \<open>
  The component keeps its state in three React state cells (\<^verbatim>\<open>gameState\<close>, \<^verbatim>\<open>score\<close>,
  \<^verbatim>\<open>lives\<close>) and four refs (\<^verbatim>\<open>keysPressed\<close>, \<^verbatim>\<open>paddle\<close>, \<^verbatim>\<open>ball\<close>, \<^verbatim>\<open>bricks\<close>).
  The model gathers them in one record that every operation takes and returns.

  Modelling decisions:
  \<^item> a JavaScript \<^verbatim>\<open>number\<close> that holds a coordinate, a size or a velocity is a \<open>real\<close>
    (exact arithmetic, no rounding); \<^verbatim>\<open>score\<close>, \<^verbatim>\<open>lives\<close> and a brick's \<^verbatim>\<open>points\<close>
    only ever hold integers and are \<open>int\<close>;
  \<^item> \<^verbatim>\<open>Math.random()\<close> is an input: the operations that may call it take the number it
    would return as the argument \<open>rand\<close>;
  \<^item> a state setter takes effect where it is called, and the updater function passed to
    \<^verbatim>\<open>setLives\<close> runs at the call, so that the statements of \<^verbatim>\<open>update\<close> act in the
    order in which they are written (in a frame in which the ball falls, the steps after
    the updater change nothing but the paddle, lemma \<open>update_fall\<close>, so the state after
    the frame does not depend on when the updater runs);
  \<^item> \<^verbatim>\<open>gameState\<close> is a constant of each render, and a function of the component reads
    the one of the render that made it. \<open>update\<close> and \<open>handleKeyDown\<close> below are the
    functions of the current render: they read \<^verbatim>\<open>gameState\<close> from the record (the
    key handlers are registered anew whenever \<^verbatim>\<open>gameState\<close> changes, lines 371--404).
    The game loop is another matter: it keeps the \<^verbatim>\<open>update\<close> of the first render, see
    \<open>gameLoop\<close> below;
  \<^item> drawing reads the state and changes none of it; it is not modelled.
\<close>

subsection \<open>Data (lines 5--31)\<close>

record Brick =
  x :: real
  y :: real
  width :: real
  height :: real
  color :: string
  active :: bool
  points :: int

record Ball =
  x :: real
  y :: real
  dx :: real
  dy :: real
  radius :: real

record Paddle =
  x :: real
  y :: real
  width :: real
  height :: real
  speed :: real

datatype GameState = ready | playing | paused | gameOver | win

record Game =
  gameState :: GameState
  score :: int
  lives :: int
  keysPressed :: "string \<rightharpoonup> bool"
  paddle :: Paddle
  ball :: Ball
  bricks :: "Brick list"

subsection \<open>Game constants (lines 41--53)\<close>

definition CANVAS_WIDTH :: real where "CANVAS_WIDTH = 800"
definition CANVAS_HEIGHT :: real where "CANVAS_HEIGHT = 600"
definition PADDLE_WIDTH :: real where "PADDLE_WIDTH = 120"
definition PADDLE_HEIGHT :: real where "PADDLE_HEIGHT = 15"
definition BALL_RADIUS :: real where "BALL_RADIUS = 8"
definition BRICK_ROWS :: nat where "BRICK_ROWS = 6"
definition BRICK_COLS :: nat where "BRICK_COLS = 10"
definition BRICK_WIDTH :: real where "BRICK_WIDTH = 70"
definition BRICK_HEIGHT :: real where "BRICK_HEIGHT = 25"
definition BRICK_PADDING :: real where "BRICK_PADDING = 10"
definition BRICK_OFFSET_TOP :: real where "BRICK_OFFSET_TOP = 60"
definition BRICK_OFFSET_LEFT :: real where "BRICK_OFFSET_LEFT = 35"

subsection \<open>The initial values of the state cells and refs (lines 35--72)\<close>

definition initialPaddle :: Paddle where
  "initialPaddle =
     \<lparr>Paddle.x = CANVAS_WIDTH / 2 - PADDLE_WIDTH / 2,
      Paddle.y = CANVAS_HEIGHT - 40,
      Paddle.width = PADDLE_WIDTH,
      Paddle.height = PADDLE_HEIGHT,
      Paddle.speed = 8\<rparr>"

definition initialBall :: Ball where
  "initialBall =
     \<lparr>Ball.x = CANVAS_WIDTH / 2,
      Ball.y = CANVAS_HEIGHT / 2,
      Ball.dx = 4,
      Ball.dy = - 4,
      Ball.radius = BALL_RADIUS\<rparr>"

definition initialGame :: Game where
  "initialGame =
     \<lparr>gameState = ready, score = 0, lives = 3, keysPressed = Map.empty,
      paddle = initialPaddle, ball = initialBall, bricks = []\<rparr>"

subsection \<open>\<^verbatim>\<open>initBricks\<close> (lines 75--94)\<close>

definition colors :: "string list" where
  "colors = [''#FF6B6B'', ''#4ECDC4'', ''#45B7D1'', ''#FFA07A'', ''#98D8C8'', ''#F7DC6F'']"

text \<open>The object pushed for one \<open>row\<close> and \<open>col\<close> of the nested loops.\<close>

definition newBrick :: "nat \<Rightarrow> nat \<Rightarrow> Brick" where
  "newBrick row col =
     \<lparr>Brick.x = real col * (BRICK_WIDTH + BRICK_PADDING) + BRICK_OFFSET_LEFT,
      Brick.y = real row * (BRICK_HEIGHT + BRICK_PADDING) + BRICK_OFFSET_TOP,
      Brick.width = BRICK_WIDTH,
      Brick.height = BRICK_HEIGHT,
      Brick.color = colors ! (row mod length colors),
      Brick.active = True,
      Brick.points = (int BRICK_ROWS - int row) * 10\<rparr>"

text \<open>The outer loop runs over the rows, the inner one over the columns.\<close>

definition newBricks :: "Brick list" where
  "newBricks =
     concat (map (\<lambda>row. map (\<lambda>col. newBrick row col) [0..<BRICK_COLS]) [0..<BRICK_ROWS])"

definition initBricks :: "Game \<Rightarrow> Game" where
  "initBricks g = g\<lparr>bricks := newBricks\<rparr>"

subsection \<open>\<^verbatim>\<open>resetBall\<close> and \<^verbatim>\<open>resetGame\<close> (lines 97--115)\<close>

definition resetBall :: "real \<Rightarrow> Game \<Rightarrow> Game" where
  "resetBall rand g =
     g\<lparr>ball :=
        \<lparr>Ball.x = CANVAS_WIDTH / 2,
         Ball.y = CANVAS_HEIGHT / 2,
         Ball.dx = 4 * (if rand > 0.5 then 1 else - 1),
         Ball.dy = - 4,
         Ball.radius = BALL_RADIUS\<rparr>\<rparr>"

definition resetGame :: "real \<Rightarrow> Game \<Rightarrow> Game" where
  "resetGame rand g =
     (let g1 = g\<lparr>score := 0\<rparr>;
          g2 = g1\<lparr>lives := 3\<rparr>;
          g3 = initBricks g2;
          g4 = resetBall rand g3;
          g5 = g4\<lparr>paddle := (paddle g4)\<lparr>Paddle.x := CANVAS_WIDTH / 2 - PADDLE_WIDTH / 2\<rparr>\<rparr>
      in g5\<lparr>gameState := ready\<rparr>)"

subsection \<open>\<^verbatim>\<open>checkBallBrickCollision\<close> (lines 214--255)\<close>

text \<open>The overlap test of lines 221--226.\<close>

definition ballOverlapsBrick :: "Ball \<Rightarrow> Brick \<Rightarrow> bool" where
  "ballOverlapsBrick b brick \<longleftrightarrow>
     Ball.x b + Ball.radius b > Brick.x brick \<and>
     Ball.x b - Ball.radius b < Brick.x brick + Brick.width brick \<and>
     Ball.y b + Ball.radius b > Brick.y brick \<and>
     Ball.y b - Ball.radius b < Brick.y brick + Brick.height brick"

text \<open>Lines 227--246: the side of the brick that was hit decides which component flips.\<close>

definition reverseBall :: "Ball \<Rightarrow> Brick \<Rightarrow> Ball" where
  "reverseBall b brick =
     (let ballCenterX = Ball.x b;
          ballCenterY = Ball.y b;
          brickCenterX = Brick.x brick + Brick.width brick / 2;
          brickCenterY = Brick.y brick + Brick.height brick / 2;
          ddx = ballCenterX - brickCenterX;
          ddy = ballCenterY - brickCenterY;
          w = (Brick.width brick + Ball.radius b * 2) / 2;
          h = (Brick.height brick + Ball.radius b * 2) / 2;
          crossWidth = w * ddy;
          crossHeight = h * ddx
      in if \<bar>crossWidth\<bar> > \<bar>crossHeight\<bar>
         then b\<lparr>Ball.dy := - Ball.dy b\<rparr>
         else b\<lparr>Ball.dx := - Ball.dx b\<rparr>)"

text \<open>
  The body of the \<^verbatim>\<open>if\<close> of lines 227--251 for the brick at index \<open>i\<close>: the ball is
  reversed, the brick is switched off and its points are added to the score.
\<close>

definition hitBrick :: "nat \<Rightarrow> Game \<Rightarrow> Game" where
  "hitBrick i g =
     (let brick = bricks g ! i
      in g\<lparr>ball := reverseBall (ball g) brick,
           bricks := (bricks g)[i := brick\<lparr>Brick.active := False\<rparr>],
           score := score g + Brick.points brick\<rparr>)"

text \<open>
  The \<^verbatim>\<open>for\<close> loop from index \<open>i\<close> on. The \<^verbatim>\<open>break\<close> of line 251 is the branch that
  does not call the loop again.
\<close>

function brickLoop :: "nat \<Rightarrow> Game \<Rightarrow> Game" where
  "brickLoop i g =
     (if i < length (bricks g) then
        (let brick = bricks g ! i
         in if Brick.active brick \<and> ballOverlapsBrick (ball g) brick
            then hitBrick i g
            else brickLoop (i + 1) g)
      else g)"
  by pat_completeness auto
termination
  by (relation "measure (\<lambda>(i, g). length (bricks g) - i)") auto

declare brickLoop.simps [simp del]

definition checkBallBrickCollision :: "Game \<Rightarrow> Game" where
  "checkBallBrickCollision g = brickLoop 0 g"

subsection \<open>\<^verbatim>\<open>checkBallPaddleCollision\<close> (lines 257--280)\<close>

definition ballOverlapsPaddle :: "Ball \<Rightarrow> Paddle \<Rightarrow> bool" where
  "ballOverlapsPaddle b p \<longleftrightarrow>
     Ball.x b + Ball.radius b > Paddle.x p \<and>
     Ball.x b - Ball.radius b < Paddle.x p + Paddle.width p \<and>
     Ball.y b + Ball.radius b > Paddle.y p \<and>
     Ball.y b - Ball.radius b < Paddle.y p + Paddle.height p"

text \<open>
  Line 268. The width of the paddle is 120 in every state of the game; a width of 0,
  where JavaScript divides to an infinity or to NaN, does not occur.
\<close>

definition hitPosition :: "Ball \<Rightarrow> Paddle \<Rightarrow> real" where
  "hitPosition b p = (Ball.x b - Paddle.x p) / Paddle.width p"

definition checkBallPaddleCollision :: "Game \<Rightarrow> Game" where
  "checkBallPaddleCollision g =
     (let b = ball g; p = paddle g
      in if ballOverlapsPaddle b p then
           (let angle = (hitPosition b p - 0.5) * pi * 0.6;
                speed = sqrt (Ball.dx b * Ball.dx b + Ball.dy b * Ball.dy b)
            in g\<lparr>ball := b\<lparr>Ball.dx := sin angle * speed,
                            Ball.dy := - \<bar>cos angle * speed\<bar>,
                            Ball.y := Paddle.y p - Ball.radius b\<rparr>\<rparr>)
         else g)"

subsection \<open>\<^verbatim>\<open>update\<close> (lines 283--337)\<close>

text \<open>Lines 290--291.\<close>

definition moveBall :: "Game \<Rightarrow> Game" where
  "moveBall g =
     (let b = ball g
      in g\<lparr>ball := b\<lparr>Ball.x := Ball.x b + Ball.dx b, Ball.y := Ball.y b + Ball.dy b\<rparr>\<rparr>)"

text \<open>Lines 293--300.\<close>

definition wallCollision :: "Game \<Rightarrow> Game" where
  "wallCollision g =
     (let b = ball g;
          b1 = (if Ball.x b + Ball.radius b > CANVAS_WIDTH \<or> Ball.x b - Ball.radius b < 0
                then b\<lparr>Ball.dx := - Ball.dx b\<rparr> else b);
          b2 = (if Ball.y b1 - Ball.radius b1 < 0 then b1\<lparr>Ball.dy := - Ball.dy b1\<rparr> else b1)
      in g\<lparr>ball := b2\<rparr>)"

text \<open>The test of line 303.\<close>

definition ballFell :: "Ball \<Rightarrow> bool" where
  "ballFell b \<longleftrightarrow> Ball.y b - Ball.radius b > CANVAS_HEIGHT"

text \<open>Lines 302--314, the updater of \<^verbatim>\<open>setLives\<close> included.\<close>

definition ballFalls :: "real \<Rightarrow> Game \<Rightarrow> Game" where
  "ballFalls rand g =
     (if ballFell (ball g) then
        (let newLives = lives g - 1;
             g1 = (if newLives \<le> 0 then g\<lparr>gameState := gameOver\<rparr>
                   else (resetBall rand g)\<lparr>gameState := ready\<rparr>)
         in g1\<lparr>lives := newLives\<rparr>)
      else g)"

text \<open>A key counts as held when its entry in \<^verbatim>\<open>keysPressed\<close> is \<^verbatim>\<open>true\<close>.\<close>

definition held :: "(string \<rightharpoonup> bool) \<Rightarrow> string \<Rightarrow> bool" where
  "held ks key \<longleftrightarrow> ks key = Some True"

text \<open>Lines 316--326.\<close>

definition movePaddle :: "Game \<Rightarrow> Game" where
  "movePaddle g =
     (let ks = keysPressed g;
          p = paddle g;
          p1 = (if held ks ''ArrowLeft'' \<or> held ks ''a''
                then p\<lparr>Paddle.x := Paddle.x p - Paddle.speed p\<rparr> else p);
          p2 = (if held ks ''ArrowRight'' \<or> held ks ''d''
                then p1\<lparr>Paddle.x := Paddle.x p1 + Paddle.speed p1\<rparr> else p1);
          p3 = (if Paddle.x p2 < 0 then p2\<lparr>Paddle.x := 0\<rparr> else p2);
          p4 = (if Paddle.x p3 + Paddle.width p3 > CANVAS_WIDTH
                then p3\<lparr>Paddle.x := CANVAS_WIDTH - Paddle.width p3\<rparr> else p3)
      in g\<lparr>paddle := p4\<rparr>)"

text \<open>Lines 332--336.\<close>

definition checkWin :: "Game \<Rightarrow> Game" where
  "checkWin g =
     (let activeBricks = length (filter (\<lambda>b. Brick.active b) (bricks g))
      in if activeBricks = 0 then g\<lparr>gameState := win\<rparr> else g)"

definition update :: "real \<Rightarrow> Game \<Rightarrow> Game" where
  "update rand g =
     (if gameState g \<noteq> playing then g
      else
        (let g1 = moveBall g;
             g2 = wallCollision g1;
             g3 = ballFalls rand g2;
             g4 = movePaddle g3;
             g5 = checkBallPaddleCollision g4;
             g6 = checkBallBrickCollision g5
         in checkWin g6))"

subsection \<open>The keyboard handlers (lines 372--395)\<close>

definition handleKeyDown :: "real \<Rightarrow> string \<Rightarrow> Game \<Rightarrow> Game" where
  "handleKeyDown rand key g =
     (let g1 = g\<lparr>keysPressed := (keysPressed g)(key \<mapsto> True)\<rparr>;
          g2 = (if key = '' '' \<or> key = ''Spacebar'' then
                  (if gameState g = ready then g1\<lparr>gameState := playing\<rparr>
                   else if gameState g = playing then g1\<lparr>gameState := paused\<rparr>
                   else if gameState g = paused then g1\<lparr>gameState := playing\<rparr>
                   else g1)
                else g1)
      in if key = ''r'' \<or> key = ''R'' then
           (if gameState g = gameOver \<or> gameState g = win then resetGame rand g2 else g2)
         else g2)"

definition handleKeyUp :: "string \<Rightarrow> Game \<Rightarrow> Game" where
  "handleKeyUp key g = g\<lparr>keysPressed := (keysPressed g)(key \<mapsto> False)\<rparr>"

subsection \<open>The game loop (lines 364--368, 407--423)\<close>

text \<open>
  The effect that mounts the component calls \<^verbatim>\<open>gameLoop\<close> of the first render, and that
  function hands itself to \<^verbatim>\<open>requestAnimationFrame\<close> in every frame. The effect of lines
  419--423 would start the loop of a later render, but it asks for
  \<^verbatim>\<open>animationFrameRef.current\<close> to be unset, and the mount effect has set it before
  (nothing clears it again). So the \<^verbatim>\<open>update\<close> that a frame calls is the one of the first
  render: the \<^verbatim>\<open>gameState\<close> that its line 284 tests is the initial value of the state cell
  (line 35), whatever the phase has become. The rest of its body works on the refs and
  through the state setters, which all renders share.
\<close>

definition gameLoop :: "real \<Rightarrow> Game \<Rightarrow> Game" where
  "gameLoop rand g =
     (if gameState initialGame \<noteq> playing then g
      else
        (let g1 = moveBall g;
             g2 = wallCollision g1;
             g3 = ballFalls rand g2;
             g4 = movePaddle g3;
             g5 = checkBallPaddleCollision g4;
             g6 = checkBallBrickCollision g5
         in checkWin g6))"

subsection \<open>Runs of the game\<close>

text \<open>
  What happens to a mounted game: a frame of the game loop, a key going down, a key going
  up. \<open>Update\<close> is a fourth event, a call of \<^verbatim>\<open>update\<close> of the current render. The
  mounted component has no caller for it; the runs admit it all the same, so that what
  is proved of every run holds of the component as it is and would still hold of a loop
  that follows the phase. A state that only a run with \<open>Update\<close> events reaches is not
  a state of the component, and no theorem below says so.
  A frame, an update and a key press carry the number that \<^verbatim>\<open>Math.random()\<close> returns if
  it is called.
\<close>

datatype Event = Frame real | Update real | KeyDown real string | KeyUp string

fun step :: "Event \<Rightarrow> Game \<Rightarrow> Game" where
  "step (Frame rand) g = gameLoop rand g"
| "step (Update rand) g = update rand g"
| "step (KeyDown rand key) g = handleKeyDown rand key g"
| "step (KeyUp key) g = handleKeyUp key g"

fun run :: "Event list \<Rightarrow> Game \<Rightarrow> Game" where
  "run [] g = g"
| "run (e # es) g = run es (step e g)"

text \<open>
  The effect that mounts the component (lines 407--416) calls \<^verbatim>\<open>initBricks\<close> before
  the first frame.
\<close>

definition mountedGame :: Game where
  "mountedGame = initBricks initialGame"

text \<open>The restart command is the key \<^verbatim>\<open>r\<close> or \<^verbatim>\<open>R\<close> going down.\<close>

fun isRestart :: "Event \<Rightarrow> bool" where
  "isRestart (KeyDown rand key) \<longleftrightarrow> key = ''r'' \<or> key = ''R''"
| "isRestart _ \<longleftrightarrow> False"

subsection \<open>The states of a running game\<close>

text \<open>
  What every state of a run has (lemma \<open>gameInv_reachable\<close> below): the paddle keeps its
  row and its size and stays inside the field, the ball keeps its radius, the bricks are
  the grid of \<^verbatim>\<open>initBricks\<close> up to their \<^verbatim>\<open>active\<close> flags, the lives are between 0 and
  3 and at least 1 while a ball can be in play, a brick is active unless the game is won,
  and the lives are 0 only when the game is over.
\<close>

definition gameInv :: "Game \<Rightarrow> bool" where
  "gameInv g \<longleftrightarrow>
     Paddle.y (paddle g) = CANVAS_HEIGHT - 40 \<and>
     Paddle.width (paddle g) = PADDLE_WIDTH \<and>
     Paddle.height (paddle g) = PADDLE_HEIGHT \<and>
     Paddle.speed (paddle g) = 8 \<and>
     0 \<le> Paddle.x (paddle g) \<and> Paddle.x (paddle g) \<le> CANVAS_WIDTH - PADDLE_WIDTH \<and>
     Ball.radius (ball g) = BALL_RADIUS \<and>
     map (\<lambda>b. b\<lparr>Brick.active := True\<rparr>) (bricks g) = newBricks \<and>
     0 \<le> lives g \<and> lives g \<le> 3 \<and>
     (gameState g = ready \<or> gameState g = playing \<or> gameState g = paused \<longrightarrow> 1 \<le> lives g) \<and>
     (gameState g \<noteq> win \<longrightarrow> (\<exists>b\<in>set (bricks g). Brick.active b)) \<and>
     (lives g = 0 \<longrightarrow> gameState g = gameOver)"

subsection \<open>Concrete states\<close>

text \<open>
  A ball of the game's radius, and the mounted game put in play with \<open>n\<close> lives and the
  ball \<open>b\<close>: states that \<open>update\<close> and the functions it calls are given directly.
\<close>

abbreviation ballAt :: "real \<Rightarrow> real \<Rightarrow> real \<Rightarrow> real \<Rightarrow> Ball" where
  "ballAt bx by vx vy \<equiv>
     \<lparr>Ball.x = bx, Ball.y = by, Ball.dx = vx, Ball.dy = vy, Ball.radius = BALL_RADIUS\<rparr>"

abbreviation inPlay :: "int \<Rightarrow> Ball \<Rightarrow> Game" where
  "inPlay n b \<equiv> mountedGame\<lparr>gameState := playing, lives := n, ball := b\<rparr>"

text \<open>
  The states in which \<^verbatim>\<open>update\<close> calls \<^verbatim>\<open>checkBallPaddleCollision\<close> (line 329) and
  \<^verbatim>\<open>checkBallBrickCollision\<close> (line 330).
\<close>

abbreviation atPaddleCheck :: "real \<Rightarrow> Game \<Rightarrow> Game" where
  "atPaddleCheck rand g \<equiv> movePaddle (ballFalls rand (wallCollision (moveBall g)))"

abbreviation atBrickCheck :: "real \<Rightarrow> Game \<Rightarrow> Game" where
  "atBrickCheck rand g \<equiv> checkBallPaddleCollision (atPaddleCheck rand g)"

section \<open>Lemmas\<close>

lemmas constants =
  CANVAS_WIDTH_def CANVAS_HEIGHT_def PADDLE_WIDTH_def PADDLE_HEIGHT_def BALL_RADIUS_def
  BRICK_ROWS_def BRICK_COLS_def BRICK_WIDTH_def BRICK_HEIGHT_def BRICK_PADDING_def
  BRICK_OFFSET_TOP_def BRICK_OFFSET_LEFT_def

subsection \<open>The loop over the bricks\<close>

text \<open>
  One turn of the loop, and what the whole loop does: nothing when no active brick
  overlaps the ball, and \<open>hitBrick j\<close> for the first index \<open>j\<close> at which one does.
\<close>

lemma brickLoop_end:
  "\<not> i < length (bricks g) \<Longrightarrow> brickLoop i g = g"
  by (subst brickLoop.simps) simp

lemma brickLoop_hit:
  assumes "i < length (bricks g)"
    and "Brick.active (bricks g ! i) \<and> ballOverlapsBrick (ball g) (bricks g ! i)"
  shows "brickLoop i g = hitBrick i g"
  by (subst brickLoop.simps) (use assms in \<open>simp add: Let_def\<close>)

lemma brickLoop_skip:
  assumes "i < length (bricks g)"
    and "\<not> (Brick.active (bricks g ! i) \<and> ballOverlapsBrick (ball g) (bricks g ! i))"
  shows "brickLoop i g = brickLoop (Suc i) g"
proof -
  have "brickLoop i g = (if Brick.active (bricks g ! i) \<and> ballOverlapsBrick (ball g) (bricks g ! i)
      then hitBrick i g else brickLoop (i + 1) g)"
    by (subst brickLoop.simps) (use assms(1) in \<open>simp add: Let_def\<close>)
  also have "\<dots> = brickLoop (Suc i) g"
    using assms(2) by (simp only: if_False Suc_eq_plus1)
  finally show ?thesis .
qed

lemma brickLoop_no_hit:
  "(\<And>k. i \<le> k \<Longrightarrow> k < length (bricks g) \<Longrightarrow>
      \<not> (Brick.active (bricks g ! k) \<and> ballOverlapsBrick (ball g) (bricks g ! k)))
   \<Longrightarrow> brickLoop i g = g"
proof (induction i g rule: brickLoop.induct)
  case (1 i g)
  show ?case
  proof (cases "i < length (bricks g)")
    case True
    from "1.prems" [of i] True
    have nohit: "\<not> (Brick.active (bricks g ! i) \<and> ballOverlapsBrick (ball g) (bricks g ! i))"
      by simp
    have "brickLoop (i + 1) g = g"
      using "1.IH" [OF True refl nohit] "1.prems" by simp
    with brickLoop_skip [OF True nohit] show ?thesis by simp
  next
    case False
    then show ?thesis by (rule brickLoop_end)
  qed
qed

lemma brickLoop_first_hit:
  "i \<le> j \<Longrightarrow> j < length (bricks g) \<Longrightarrow>
   Brick.active (bricks g ! j) \<and> ballOverlapsBrick (ball g) (bricks g ! j) \<Longrightarrow>
   (\<And>k. i \<le> k \<Longrightarrow> k < j \<Longrightarrow>
      \<not> (Brick.active (bricks g ! k) \<and> ballOverlapsBrick (ball g) (bricks g ! k)))
   \<Longrightarrow> brickLoop i g = hitBrick j g"
proof (induction i g rule: brickLoop.induct)
  case (1 i g)
  from "1.prems" have ilen: "i < length (bricks g)" by simp
  show ?case
  proof (cases "i = j")
    case True
    with "1.prems" ilen show ?thesis
      by (simp add: brickLoop_hit)
  next
    case False
    with "1.prems" have lt: "i < j" by simp
    from "1.prems"(4) [of i] lt
    have nohit: "\<not> (Brick.active (bricks g ! i) \<and> ballOverlapsBrick (ball g) (bricks g ! i))"
      by simp
    have "brickLoop (i + 1) g = hitBrick j g"
      using "1.IH" [OF ilen refl nohit] "1.prems" lt by simp
    with brickLoop_skip [OF ilen nohit] show ?thesis by simp
  qed
qed

lemma brickLoop_cases:
  "brickLoop i g = g \<or>
   (\<exists>j. i \<le> j \<and> j < length (bricks g) \<and> Brick.active (bricks g ! j) \<and>
        ballOverlapsBrick (ball g) (bricks g ! j) \<and> brickLoop i g = hitBrick j g)"
proof (induction i g rule: brickLoop.induct)
  case (1 i g)
  show ?case
  proof (cases "i < length (bricks g)")
    case False
    then show ?thesis by (simp add: brickLoop_end)
  next
    case True
    show ?thesis
    proof (cases "Brick.active (bricks g ! i) \<and> ballOverlapsBrick (ball g) (bricks g ! i)")
      case hit: True
      from brickLoop_hit [OF True hit] True hit show ?thesis by blast
    next
      case nohit: False
      from "1.IH" [OF True refl nohit]
      show ?thesis unfolding brickLoop_skip [OF True nohit] Suc_eq_plus1
        by (metis add_leD1)
    qed
  qed
qed

subsection \<open>What each step leaves alone\<close>

lemma moveBall_fields [simp]:
  "gameState (moveBall g) = gameState g" "score (moveBall g) = score g"
  "lives (moveBall g) = lives g" "keysPressed (moveBall g) = keysPressed g"
  "paddle (moveBall g) = paddle g" "bricks (moveBall g) = bricks g"
  "Ball.radius (ball (moveBall g)) = Ball.radius (ball g)"
  "Ball.dx (ball (moveBall g)) = Ball.dx (ball g)"
  "Ball.dy (ball (moveBall g)) = Ball.dy (ball g)"
  "Ball.x (ball (moveBall g)) = Ball.x (ball g) + Ball.dx (ball g)"
  "Ball.y (ball (moveBall g)) = Ball.y (ball g) + Ball.dy (ball g)"
  by (simp_all add: moveBall_def Let_def)

lemma wallCollision_fields [simp]:
  "gameState (wallCollision g) = gameState g" "score (wallCollision g) = score g"
  "lives (wallCollision g) = lives g" "keysPressed (wallCollision g) = keysPressed g"
  "paddle (wallCollision g) = paddle g" "bricks (wallCollision g) = bricks g"
  "Ball.radius (ball (wallCollision g)) = Ball.radius (ball g)"
  "Ball.x (ball (wallCollision g)) = Ball.x (ball g)"
  "Ball.y (ball (wallCollision g)) = Ball.y (ball g)"
  by (simp_all add: wallCollision_def Let_def)

lemma resetBall_fields [simp]:
  "gameState (resetBall rand g) = gameState g" "score (resetBall rand g) = score g"
  "lives (resetBall rand g) = lives g" "keysPressed (resetBall rand g) = keysPressed g"
  "paddle (resetBall rand g) = paddle g" "bricks (resetBall rand g) = bricks g"
  by (simp_all add: resetBall_def)

lemma ballFalls_fields [simp]:
  "score (ballFalls rand g) = score g" "keysPressed (ballFalls rand g) = keysPressed g"
  "paddle (ballFalls rand g) = paddle g" "bricks (ballFalls rand g) = bricks g"
  by (simp_all add: ballFalls_def Let_def)

lemma movePaddle_fields [simp]:
  "gameState (movePaddle g) = gameState g" "score (movePaddle g) = score g"
  "lives (movePaddle g) = lives g" "keysPressed (movePaddle g) = keysPressed g"
  "ball (movePaddle g) = ball g" "bricks (movePaddle g) = bricks g"
  "Paddle.y (paddle (movePaddle g)) = Paddle.y (paddle g)"
  "Paddle.width (paddle (movePaddle g)) = Paddle.width (paddle g)"
  "Paddle.height (paddle (movePaddle g)) = Paddle.height (paddle g)"
  "Paddle.speed (paddle (movePaddle g)) = Paddle.speed (paddle g)"
  by (simp_all add: movePaddle_def Let_def)

lemma checkBallPaddleCollision_fields [simp]:
  "gameState (checkBallPaddleCollision g) = gameState g"
  "score (checkBallPaddleCollision g) = score g"
  "lives (checkBallPaddleCollision g) = lives g"
  "keysPressed (checkBallPaddleCollision g) = keysPressed g"
  "paddle (checkBallPaddleCollision g) = paddle g"
  "bricks (checkBallPaddleCollision g) = bricks g"
  "Ball.radius (ball (checkBallPaddleCollision g)) = Ball.radius (ball g)"
  "Ball.x (ball (checkBallPaddleCollision g)) = Ball.x (ball g)"
  by (simp_all add: checkBallPaddleCollision_def Let_def)

lemma hitBrick_fields [simp]:
  "gameState (hitBrick i g) = gameState g" "lives (hitBrick i g) = lives g"
  "keysPressed (hitBrick i g) = keysPressed g" "paddle (hitBrick i g) = paddle g"
  "Ball.radius (ball (hitBrick i g)) = Ball.radius (ball g)"
  "Ball.x (ball (hitBrick i g)) = Ball.x (ball g)"
  "Ball.y (ball (hitBrick i g)) = Ball.y (ball g)"
  "length (bricks (hitBrick i g)) = length (bricks g)"
  by (simp_all add: hitBrick_def reverseBall_def Let_def)

lemma brickLoop_fields [simp]:
  "gameState (brickLoop i g) = gameState g" "lives (brickLoop i g) = lives g"
  "keysPressed (brickLoop i g) = keysPressed g" "paddle (brickLoop i g) = paddle g"
  "Ball.radius (ball (brickLoop i g)) = Ball.radius (ball g)"
  "Ball.x (ball (brickLoop i g)) = Ball.x (ball g)"
  "Ball.y (ball (brickLoop i g)) = Ball.y (ball g)"
  "length (bricks (brickLoop i g)) = length (bricks g)"
  using brickLoop_cases [of i g] by auto

lemma checkBallBrickCollision_fields [simp]:
  "gameState (checkBallBrickCollision g) = gameState g"
  "lives (checkBallBrickCollision g) = lives g"
  "keysPressed (checkBallBrickCollision g) = keysPressed g"
  "paddle (checkBallBrickCollision g) = paddle g"
  "Ball.radius (ball (checkBallBrickCollision g)) = Ball.radius (ball g)"
  "Ball.x (ball (checkBallBrickCollision g)) = Ball.x (ball g)"
  "Ball.y (ball (checkBallBrickCollision g)) = Ball.y (ball g)"
  "length (bricks (checkBallBrickCollision g)) = length (bricks g)"
  by (simp_all add: checkBallBrickCollision_def)

lemma checkWin_fields [simp]:
  "score (checkWin g) = score g" "lives (checkWin g) = lives g"
  "keysPressed (checkWin g) = keysPressed g" "paddle (checkWin g) = paddle g"
  "ball (checkWin g) = ball g" "bricks (checkWin g) = bricks g"
  by (simp_all add: checkWin_def Let_def)

lemma checkWin_gameState:
  "gameState (checkWin g) = (if \<exists>b\<in>set (bricks g). Brick.active b then gameState g else win)"
  by (auto simp add: checkWin_def Let_def filter_empty_conv)


subsection \<open>The grid of bricks\<close>

lemma set_newBricks:
  "set newBricks = {newBrick row col | row col. row < BRICK_ROWS \<and> col < BRICK_COLS}"
  by (fastforce simp add: newBricks_def)

lemma newBricks_active: "b \<in> set newBricks \<Longrightarrow> Brick.active b"
  by (auto simp add: set_newBricks newBrick_def)

lemma newBricks_bottom:
  assumes "b \<in> set newBricks"
  shows "Brick.y b + Brick.height b \<le> 260"
proof -
  from assms obtain row col where b: "b = newBrick row col" and "row < BRICK_ROWS"
    by (auto simp add: set_newBricks)
  then have "real row \<le> 5" by (simp add: BRICK_ROWS_def)
  then show ?thesis by (simp add: b newBrick_def constants)
qed

lemma newBricks_not_Nil: "newBricks \<noteq> []"
  by (simp add: newBricks_def BRICK_ROWS_def BRICK_COLS_def upt_conv_Cons)

lemma newBricks_grid: "map (\<lambda>b. b\<lparr>Brick.active := True\<rparr>) newBricks = newBricks"
  by (rule map_idI) (simp add: newBricks_active)

lemma newBricks_some_active: "\<exists>b\<in>set newBricks. Brick.active b"
proof -
  from newBricks_not_Nil have "hd newBricks \<in> set newBricks" by simp
  with newBricks_active show ?thesis by blast
qed

lemma grid_bottom:
  assumes "map (\<lambda>b. b\<lparr>Brick.active := True\<rparr>) bs = newBricks" and "b \<in> set bs"
  shows "Brick.y b + Brick.height b \<le> 260"
proof -
  from assms have "b\<lparr>Brick.active := True\<rparr> \<in> set newBricks"
    by (metis image_eqI set_map)
  from newBricks_bottom [OF this] show ?thesis by simp
qed

subsection \<open>Steps that change nothing, and the step of the fall\<close>

lemma no_brick_hit:
  assumes "\<And>b. b \<in> set (bricks g) \<Longrightarrow> \<not> (Brick.active b \<and> ballOverlapsBrick (ball g) b)"
  shows "checkBallBrickCollision g = g"
  unfolding checkBallBrickCollision_def
  by (rule brickLoop_no_hit) (use assms nth_mem in blast)

lemma ball_below_grid:
  assumes "map (\<lambda>b. b\<lparr>Brick.active := True\<rparr>) (bricks g) = newBricks"
    and "260 \<le> Ball.y (ball g) - Ball.radius (ball g)"
  shows "checkBallBrickCollision g = g"
proof (rule no_brick_hit)
  fix b assume "b \<in> set (bricks g)"
  from grid_bottom [OF assms(1) this] assms(2)
  show "\<not> (Brick.active b \<and> ballOverlapsBrick (ball g) b)"
    by (simp add: ballOverlapsBrick_def)
qed

lemma no_paddle_hit:
  "\<not> ballOverlapsPaddle (ball g) (paddle g) \<Longrightarrow> checkBallPaddleCollision g = g"
  by (simp add: checkBallPaddleCollision_def)

lemma checkWin_some_active:
  "\<exists>b\<in>set (bricks g). Brick.active b \<Longrightarrow> checkWin g = g"
  by (auto simp add: checkWin_def Let_def filter_empty_conv)

lemma movePaddle_in_bounds:
  assumes "Paddle.width (paddle g) = PADDLE_WIDTH"
  shows "0 \<le> Paddle.x (paddle (movePaddle g)) \<and>
         Paddle.x (paddle (movePaddle g)) \<le> CANVAS_WIDTH - PADDLE_WIDTH"
  using assms by (simp add: movePaddle_def Let_def constants)

lemma ballFalls_ball:
  "ball (ballFalls rand g) =
     (if ballFell (ball g) \<and> 0 < lives g - 1 then ball (resetBall rand g) else ball g)"
  by (simp add: ballFalls_def Let_def)

lemma ballFalls_lives:
  "lives (ballFalls rand g) = (if ballFell (ball g) then lives g - 1 else lives g)"
  by (simp add: ballFalls_def Let_def)

lemma ballFalls_gameState:
  "gameState (ballFalls rand g) =
     (if ballFell (ball g) then (if lives g - 1 \<le> 0 then gameOver else ready) else gameState g)"
  by (simp add: ballFalls_def Let_def)

lemma ballFell_wallCollision [simp]:
  "ballFell (ball (wallCollision g)) = ballFell (ball g)"
  by (simp add: ballFell_def)

text \<open>A frame in which the ball falls: neither the paddle nor a brick is hit afterwards.\<close>

lemma update_fall:
  assumes inv: "gameInv g" and play: "gameState g = playing"
    and fell: "ballFell (ball (moveBall g))"
  shows "update rand g = movePaddle (ballFalls rand (wallCollision (moveBall g)))"
proof -
  define g3 where "g3 = ballFalls rand (wallCollision (moveBall g))"
  define g4 where "g4 = movePaddle g3"
  have rad: "Ball.radius (ball g) = BALL_RADIUS" using inv by (simp add: gameInv_def)
  have ball4: "ball g4 = ball g3" by (simp add: g4_def)
  have low: "CANVAS_HEIGHT / 2 \<le> Ball.y (ball g3) \<and> Ball.radius (ball g3) = BALL_RADIUS"
    using fell rad
    by (simp add: g3_def ballFalls_ball resetBall_def ballFell_def constants)
  have pad: "Paddle.y (paddle g4) = CANVAS_HEIGHT - 40"
    using inv by (simp add: g4_def g3_def gameInv_def)
  have padh: "Paddle.height (paddle g4) = PADDLE_HEIGHT"
    using inv by (simp add: g4_def g3_def gameInv_def)
  have y3: "Ball.y (ball g3) = CANVAS_HEIGHT / 2 \<or> CANVAS_HEIGHT < Ball.y (ball g3) - BALL_RADIUS"
    using fell rad
    by (simp add: g3_def ballFalls_ball resetBall_def ballFell_def constants)
  have "\<not> ballOverlapsPaddle (ball g4) (paddle g4)"
    using y3 low pad padh by (auto simp add: ballOverlapsPaddle_def ball4 constants)
  then have g5: "checkBallPaddleCollision g4 = g4" by (rule no_paddle_hit)
  have grid: "map (\<lambda>b. b\<lparr>Brick.active := True\<rparr>) (bricks g4) = newBricks"
    using inv by (simp add: g4_def g3_def gameInv_def)
  have "260 \<le> Ball.y (ball g4) - Ball.radius (ball g4)"
    using low by (simp add: ball4 constants)
  with grid have g6: "checkBallBrickCollision g4 = g4" by (rule ball_below_grid)
  have "\<exists>b\<in>set (bricks g4). Brick.active b"
    using inv play by (simp add: g4_def g3_def gameInv_def)
  then have g7: "checkWin g4 = g4" by (rule checkWin_some_active)
  show ?thesis
    using play g5 g6 g7 by (simp add: update_def Let_def g4_def [symmetric] g3_def [symmetric])
qed

subsection \<open>What a frame does to each part of the state\<close>

lemma hitBrick_grid:
  "map (\<lambda>b. b\<lparr>Brick.active := True\<rparr>) (bricks (hitBrick i g)) =
   map (\<lambda>b. b\<lparr>Brick.active := True\<rparr>) (bricks g)"
proof (cases "i < length (bricks g)")
  case True
  have "(map (\<lambda>b. b\<lparr>Brick.active := True\<rparr>) (bricks g))
          [i := map (\<lambda>b. b\<lparr>Brick.active := True\<rparr>) (bricks g) ! i] =
        map (\<lambda>b. b\<lparr>Brick.active := True\<rparr>) (bricks g)"
    by (rule list_update_id)
  with True show ?thesis by (simp add: hitBrick_def Let_def map_update)
next
  case False
  then have "(bricks g)[i := (bricks g ! i)\<lparr>Brick.active := False\<rparr>] = bricks g"
    by (simp add: list_update_beyond)
  then show ?thesis by (simp add: hitBrick_def Let_def)
qed

lemma checkBallBrickCollision_grid:
  "map (\<lambda>b. b\<lparr>Brick.active := True\<rparr>) (bricks (checkBallBrickCollision g)) =
   map (\<lambda>b. b\<lparr>Brick.active := True\<rparr>) (bricks g)"
  using brickLoop_cases [of 0 g] by (auto simp add: checkBallBrickCollision_def hitBrick_grid)

lemma ballFalls_radius:
  "Ball.radius (ball g) = BALL_RADIUS \<Longrightarrow> Ball.radius (ball (ballFalls rand g)) = BALL_RADIUS"
  by (simp add: ballFalls_ball resetBall_def)

lemma update_playing:
  "gameState g = playing \<Longrightarrow>
   update rand g =
     checkWin (checkBallBrickCollision (checkBallPaddleCollision
       (movePaddle (ballFalls rand (wallCollision (moveBall g))))))"
  by (simp add: update_def Let_def)

lemma movePaddle_paddle:
  "keysPressed g = keysPressed g' \<Longrightarrow> paddle g = paddle g' \<Longrightarrow>
   paddle (movePaddle g) = paddle (movePaddle g')"
  by (simp add: movePaddle_def Let_def)

lemma update_paddle:
  "paddle (update rand g) = (if gameState g = playing then paddle (movePaddle g) else paddle g)"
proof (cases "gameState g = playing")
  case True
  have "paddle (movePaddle (ballFalls rand (wallCollision (moveBall g)))) = paddle (movePaddle g)"
    by (rule movePaddle_paddle) simp_all
  with True show ?thesis by (simp add: update_playing)
next
  case False
  then show ?thesis by (simp add: update_def)
qed

lemma update_radius:
  "Ball.radius (ball g) = BALL_RADIUS \<Longrightarrow> Ball.radius (ball (update rand g)) = BALL_RADIUS"
  by (simp add: update_def Let_def ballFalls_radius)

lemma update_grid:
  "map (\<lambda>b. b\<lparr>Brick.active := True\<rparr>) (bricks (update rand g)) =
   map (\<lambda>b. b\<lparr>Brick.active := True\<rparr>) (bricks g)"
  by (simp add: update_def Let_def checkBallBrickCollision_grid)

lemma update_lives:
  "gameState g = playing \<Longrightarrow>
   lives (update rand g) = (if ballFell (ball (moveBall g)) then lives g - 1 else lives g)"
  by (simp add: update_playing ballFalls_lives)

lemma update_some_active:
  "gameState (update rand g) \<noteq> win \<Longrightarrow> gameState g = playing \<Longrightarrow>
   \<exists>b\<in>set (bricks (update rand g)). Brick.active b"
  by (simp add: update_playing checkWin_gameState split: if_splits)

lemma update_no_fall_gameState:
  "gameState g = playing \<Longrightarrow> \<not> ballFell (ball (moveBall g)) \<Longrightarrow>
   gameState (update rand g) = playing \<or> gameState (update rand g) = win"
  by (simp add: update_playing checkWin_gameState ballFalls_gameState)

lemma update_fall_gameState:
  assumes "gameInv g" "gameState g = playing" "ballFell (ball (moveBall g))"
  shows "gameState (update rand g) = (if lives g - 1 \<le> 0 then gameOver else ready)"
  by (simp add: update_fall [OF assms] ballFalls_gameState assms(3))

subsection \<open>The invariant of a run\<close>

lemma gameInv_update:
  assumes inv: "gameInv g"
  shows "gameInv (update rand g)"
proof (cases "gameState g = playing")
  case False
  with inv show ?thesis by (simp add: update_def)
next
  case play: True
  have pad: "Paddle.y (paddle (update rand g)) = CANVAS_HEIGHT - 40"
    "Paddle.width (paddle (update rand g)) = PADDLE_WIDTH"
    "Paddle.height (paddle (update rand g)) = PADDLE_HEIGHT"
    "Paddle.speed (paddle (update rand g)) = 8"
    using inv by (simp_all add: update_paddle gameInv_def)
  have padx: "0 \<le> Paddle.x (paddle (update rand g)) \<and>
      Paddle.x (paddle (update rand g)) \<le> CANVAS_WIDTH - PADDLE_WIDTH"
    using inv play movePaddle_in_bounds [of g] by (simp add: update_paddle gameInv_def)
  have rad: "Ball.radius (ball (update rand g)) = BALL_RADIUS"
    using inv by (simp add: update_radius gameInv_def)
  have grid: "map (\<lambda>b. b\<lparr>Brick.active := True\<rparr>) (bricks (update rand g)) = newBricks"
    using inv by (simp add: update_grid gameInv_def)
  have act: "gameState (update rand g) \<noteq> win \<longrightarrow>
      (\<exists>b\<in>set (bricks (update rand g)). Brick.active b)"
    using update_some_active [OF _ play] by blast
  from inv play have l1: "1 \<le> lives g" "lives g \<le> 3" by (simp_all add: gameInv_def)
  show ?thesis
  proof (cases "ballFell (ball (moveBall g))")
    case fell: True
    have lv: "lives (update rand g) = lives g - 1"
      using fell by (simp add: update_lives [OF play])
    have gs: "gameState (update rand g) = (if lives g - 1 \<le> 0 then gameOver else ready)"
      by (rule update_fall_gameState [OF inv play fell])
    show ?thesis
      using l1 act by (simp add: gameInv_def pad padx rad grid lv gs)
  next
    case nofell: False
    have lv: "lives (update rand g) = lives g"
      using nofell by (simp add: update_lives [OF play])
    have gs: "gameState (update rand g) = playing \<or> gameState (update rand g) = win"
      by (rule update_no_fall_gameState [OF play nofell])
    from gs show ?thesis
    proof
      assume "gameState (update rand g) = playing"
      then show ?thesis using l1 act by (simp add: gameInv_def pad padx rad grid lv)
    next
      assume w: "gameState (update rand g) = win"
      show ?thesis using l1 by (simp add: gameInv_def pad padx rad grid lv w)
    qed
  qed
qed

lemma gameInv_resetGame: "gameInv g \<Longrightarrow> gameInv (resetGame rand g)"
  by (simp add: gameInv_def resetGame_def Let_def initBricks_def resetBall_def newBricks_grid
      newBricks_some_active constants)

lemma gameInv_keysPressed: "gameInv (g\<lparr>keysPressed := ks\<rparr>) = gameInv g"
  by (simp add: gameInv_def)

lemma gameInv_gameState:
  assumes "gameInv g"
    and "gameState g = ready \<or> gameState g = playing \<or> gameState g = paused"
    and "s = ready \<or> s = playing \<or> s = paused"
  shows "gameInv (g\<lparr>gameState := s\<rparr>)"
  using assms by (auto simp add: gameInv_def)

lemma handleKeyDown_cases:
  "handleKeyDown rand key g = g\<lparr>keysPressed := (keysPressed g)(key \<mapsto> True)\<rparr> \<or>
   (gameState g = ready \<or> gameState g = playing \<or> gameState g = paused) \<and>
   (\<exists>s. (s = ready \<or> s = playing \<or> s = paused) \<and>
      handleKeyDown rand key g =
        g\<lparr>keysPressed := (keysPressed g)(key \<mapsto> True), gameState := s\<rparr>) \<or>
   handleKeyDown rand key g =
     resetGame rand (g\<lparr>keysPressed := (keysPressed g)(key \<mapsto> True)\<rparr>)"
  by (cases "gameState g") (auto simp add: handleKeyDown_def Let_def)

lemma gameInv_handleKeyDown:
  assumes inv: "gameInv g"
  shows "gameInv (handleKeyDown rand key g)"
proof -
  let ?g1 = "g\<lparr>keysPressed := (keysPressed g)(key \<mapsto> True)\<rparr>"
  have inv1: "gameInv ?g1" using inv by (simp only: gameInv_keysPressed)
  from handleKeyDown_cases [of rand key g]
  consider (keys) "handleKeyDown rand key g = ?g1"
    | (phase) s where "gameState g = ready \<or> gameState g = playing \<or> gameState g = paused"
        "s = ready \<or> s = playing \<or> s = paused"
        "handleKeyDown rand key g = ?g1\<lparr>gameState := s\<rparr>"
    | (restart) "handleKeyDown rand key g = resetGame rand ?g1"
    by blast
  then show ?thesis
  proof cases
    case keys
    with inv1 show ?thesis by simp
  next
    case phase
    have "gameInv (?g1\<lparr>gameState := s\<rparr>)"
      by (rule gameInv_gameState [OF inv1 _ phase(2)]) (use phase(1) in simp)
    with phase(3) show ?thesis by simp
  next
    case restart
    with gameInv_resetGame [OF inv1] show ?thesis by simp
  qed
qed

lemma gameInv_handleKeyUp: "gameInv g \<Longrightarrow> gameInv (handleKeyUp key g)"
  by (simp add: gameInv_def handleKeyUp_def)

text \<open>A frame of the game loop leaves the state as it is.\<close>

lemma gameLoop_idle: "gameLoop rand g = g"
  by (simp add: gameLoop_def initialGame_def)

lemma gameInv_step: "gameInv g \<Longrightarrow> gameInv (step e g)"
  by (cases e)
    (simp_all add: gameLoop_idle gameInv_update gameInv_handleKeyDown gameInv_handleKeyUp)

lemma gameInv_run: "gameInv g \<Longrightarrow> gameInv (run es g)"
  by (induction es arbitrary: g) (simp_all add: gameInv_step)

lemma gameInv_mountedGame: "gameInv mountedGame"
  by (simp add: gameInv_def mountedGame_def initBricks_def initialGame_def initialPaddle_def
      initialBall_def newBricks_grid newBricks_some_active constants)

lemma gameInv_reachable: "gameInv (run es mountedGame)"
  by (rule gameInv_run [OF gameInv_mountedGame])

subsection \<open>Frames on concrete states\<close>

lemma mountedGame_fields [simp]:
  "gameState mountedGame = ready" "score mountedGame = 0" "lives mountedGame = 3"
  "keysPressed mountedGame = Map.empty" "paddle mountedGame = initialPaddle"
  "ball mountedGame = initialBall" "bricks mountedGame = newBricks"
  by (simp_all add: mountedGame_def initBricks_def initialGame_def)

lemma gameInv_inPlay:
  assumes "Ball.radius b = BALL_RADIUS" and "1 \<le> n" and "n \<le> 3"
  shows "gameInv (inPlay n b)"
  using assms
  by (simp add: gameInv_def initialPaddle_def newBricks_grid newBricks_some_active constants)

lemma ballFalls_no_fall: "\<not> ballFell (ball g) \<Longrightarrow> ballFalls rand g = g"
  by (simp add: ballFalls_def)

text \<open>A frame in which the ball neither falls nor touches the paddle or a brick.\<close>

lemma update_free:
  assumes inv: "gameInv g" and play: "gameState g = playing"
    and nofall: "\<not> ballFell (ball (moveBall g))"
    and clear: "260 \<le> Ball.y (ball g) + Ball.dy (ball g) - Ball.radius (ball g)"
    and nohit: "\<not> ballOverlapsPaddle (ball (moveBall g)) (paddle (movePaddle g))"
  shows "update rand g = movePaddle (wallCollision (moveBall g))"
proof -
  define g4 where "g4 = movePaddle (wallCollision (moveBall g))"
  have g3: "ballFalls rand (wallCollision (moveBall g)) = wallCollision (moveBall g)"
    using nofall by (simp add: ballFalls_no_fall)
  have pad: "paddle g4 = paddle (movePaddle g)"
    unfolding g4_def by (rule movePaddle_paddle) simp_all
  have "ballOverlapsPaddle (ball g4) (paddle g4) =
      ballOverlapsPaddle (ball (moveBall g)) (paddle (movePaddle g))"
    by (simp add: pad ballOverlapsPaddle_def) (simp add: g4_def)
  with nohit have g5: "checkBallPaddleCollision g4 = g4" by (simp add: no_paddle_hit)
  have grid: "map (\<lambda>b. b\<lparr>Brick.active := True\<rparr>) (bricks g4) = newBricks"
    using inv by (simp add: g4_def gameInv_def)
  have "260 \<le> Ball.y (ball g4) - Ball.radius (ball g4)"
    using clear by (simp add: g4_def)
  with grid have g6: "checkBallBrickCollision g4 = g4" by (rule ball_below_grid)
  have "\<exists>b\<in>set (bricks g4). Brick.active b"
    using inv play by (simp add: g4_def gameInv_def)
  then have g7: "checkWin g4 = g4" by (rule checkWin_some_active)
  show ?thesis
    using play g5 g6 g7 by (simp add: update_playing g3 g4_def [symmetric])
qed


lemma update_fall_respawn:
  assumes "gameInv g" "gameState g = playing" "ballFell (ball (moveBall g))" "0 < lives g - 1"
  shows "ball (update rand g) =
           \<lparr>Ball.x = CANVAS_WIDTH / 2, Ball.y = CANVAS_HEIGHT / 2,
            Ball.dx = 4 * (if rand > 0.5 then 1 else - 1), Ball.dy = - 4,
            Ball.radius = BALL_RADIUS\<rparr>"
  using assms(3,4) by (simp add: update_fall [OF assms(1-3)] ballFalls_ball resetBall_def)


subsection \<open>Bricks and score in a frame\<close>

lemma length_newBricks: "length newBricks = 60"
  by (simp add: newBricks_def BRICK_ROWS_def BRICK_COLS_def length_concat comp_def sum_list_triv)

lemma checkBallBrickCollision_first:
  assumes "j < length (bricks g)"
    and "Brick.active (bricks g ! j) \<and> ballOverlapsBrick (ball g) (bricks g ! j)"
    and "\<forall>k<j. \<not> (Brick.active (bricks g ! k) \<and> ballOverlapsBrick (ball g) (bricks g ! k))"
  shows "checkBallBrickCollision g = hitBrick j g"
  unfolding checkBallBrickCollision_def
  by (rule brickLoop_first_hit) (use assms in simp_all)

lemma checkBallBrickCollision_none:
  assumes "\<forall>k<length (bricks g).
      \<not> (Brick.active (bricks g ! k) \<and> ballOverlapsBrick (ball g) (bricks g ! k))"
  shows "checkBallBrickCollision g = g"
  unfolding checkBallBrickCollision_def
  by (rule brickLoop_no_hit) (use assms in simp)

lemma update_bricks_score:
  "bricks (update rand g) = bricks g \<and> score (update rand g) = score g \<or>
   (\<exists>j<length (bricks g). Brick.active (bricks g ! j) \<and>
      bricks (update rand g) = (bricks g)[j := (bricks g ! j)\<lparr>Brick.active := False\<rparr>] \<and>
      score (update rand g) = score g + Brick.points (bricks g ! j))"
proof (cases "gameState g = playing")
  case False
  then show ?thesis by (simp add: update_def)
next
  case True
  define g5 where
    "g5 = checkBallPaddleCollision (movePaddle (ballFalls rand (wallCollision (moveBall g))))"
  have same: "bricks g5 = bricks g" "score g5 = score g" by (simp_all add: g5_def)
  have upd: "bricks (update rand g) = bricks (brickLoop 0 g5)"
      "score (update rand g) = score (brickLoop 0 g5)"
    using True by (simp_all add: update_playing g5_def checkBallBrickCollision_def)
  from brickLoop_cases [of 0 g5] show ?thesis
  proof
    assume "brickLoop 0 g5 = g5"
    then show ?thesis by (simp add: upd same)
  next
    assume "\<exists>j\<ge>0. j < length (bricks g5) \<and> Brick.active (bricks g5 ! j) \<and>
        ballOverlapsBrick (ball g5) (bricks g5 ! j) \<and> brickLoop 0 g5 = hitBrick j g5"
    then obtain j where "j < length (bricks g)" "Brick.active (bricks g ! j)"
      "brickLoop 0 g5 = hitBrick j g5"
      by (auto simp add: same)
    then show ?thesis by (auto simp add: upd hitBrick_def Let_def same)
  qed
qed

text \<open>
  Two calls of \<open>update\<close> that the theorems below look at: the ball on its way down, to
  the left of the paddle, before and after its top has passed the bottom boundary.
\<close>

lemma update_above_bottom:
  "ball (update rand (inPlay 3 (ballAt 100 590 4 4))) = ballAt 104 594 4 4"
  "lives (update rand (inPlay 3 (ballAt 100 590 4 4))) = 3"
  "gameState (update rand (inPlay 3 (ballAt 100 590 4 4))) = playing"
proof -
  let ?g = "inPlay 3 (ballAt 100 590 4 4)"
  have inv: "gameInv ?g" by (rule gameInv_inPlay) simp_all
  have play: "gameState ?g = playing" by simp
  have nofall: "\<not> ballFell (ball (moveBall ?g))" by (simp add: ballFell_def constants)
  have clear: "260 \<le> Ball.y (ball ?g) + Ball.dy (ball ?g) - Ball.radius (ball ?g)"
    by (simp add: constants)
  have nohit: "\<not> ballOverlapsPaddle (ball (moveBall ?g)) (paddle (movePaddle ?g))"
    by (simp add: ballOverlapsPaddle_def) (simp add: initialPaddle_def constants)
  have eq: "update rand ?g = movePaddle (wallCollision (moveBall ?g))"
    by (rule update_free [OF inv play nofall clear nohit])
  show "ball (update rand ?g) = ballAt 104 594 4 4"
    by (simp add: eq) (simp add: wallCollision_def moveBall_def Let_def constants)
  show "lives (update rand ?g) = 3" by (simp add: eq)
  show "gameState (update rand ?g) = playing" by (simp add: eq)
qed

lemma update_below_bottom:
  "ballFell (ball (moveBall (inPlay 3 (ballAt 100 606 4 4))))"
  "lives (update rand (inPlay 3 (ballAt 100 606 4 4))) = 2"
  "gameState (update rand (inPlay 3 (ballAt 100 606 4 4))) = ready"
  "ball (update rand (inPlay 3 (ballAt 100 606 4 4))) =
     ballAt 400 300 (if rand > 0.5 then 4 else - 4) (- 4)"
proof -
  let ?g = "inPlay 3 (ballAt 100 606 4 4)"
  have inv: "gameInv ?g" by (rule gameInv_inPlay) simp_all
  have play: "gameState ?g = playing" by simp
  show fell: "ballFell (ball (moveBall ?g))" by (simp add: ballFell_def constants)
  have more: "0 < lives ?g - 1" by simp
  show "lives (update rand ?g) = 2"
    using fell by (simp add: update_lives [OF play])
  show "gameState (update rand ?g) = ready"
    using more by (simp add: update_fall_gameState [OF inv play fell])
  show "ball (update rand ?g) = ballAt 400 300 (if rand > 0.5 then 4 else - 4) (- 4)"
    unfolding update_fall_respawn [OF inv play fell more] by (simp add: constants)
qed

text \<open>
  What a frame in play does to bricks, score and ball, in terms of the state in which
  the scan of the bricks starts.
\<close>

lemma update_hit:
  assumes play: "gameState g = playing" and j: "j < length (bricks g)"
    and hit: "Brick.active (bricks g ! j) \<and>
      ballOverlapsBrick (ball (atBrickCheck rand g)) (bricks g ! j)"
    and first: "\<forall>k<j. \<not> (Brick.active (bricks g ! k) \<and>
      ballOverlapsBrick (ball (atBrickCheck rand g)) (bricks g ! k))"
  shows "bricks (update rand g) = (bricks g)[j := (bricks g ! j)\<lparr>Brick.active := False\<rparr>]"
    and "score (update rand g) = score g + Brick.points (bricks g ! j)"
    and "ball (update rand g) = reverseBall (ball (atBrickCheck rand g)) (bricks g ! j)"
proof -
  define g5 where "g5 = atBrickCheck rand g"
  have same: "bricks g5 = bricks g" "score g5 = score g" by (simp_all add: g5_def)
  have "checkBallBrickCollision g5 = hitBrick j g5"
    by (rule checkBallBrickCollision_first)
      (use j hit first in \<open>simp_all add: same g5_def [symmetric]\<close>)
  then have eq: "update rand g = checkWin (hitBrick j g5)"
    by (simp add: update_playing [OF play] g5_def)
  show "bricks (update rand g) = (bricks g)[j := (bricks g ! j)\<lparr>Brick.active := False\<rparr>]"
    by (simp add: eq hitBrick_def Let_def same)
  show "score (update rand g) = score g + Brick.points (bricks g ! j)"
    by (simp add: eq hitBrick_def Let_def same)
  show "ball (update rand g) = reverseBall (ball (atBrickCheck rand g)) (bricks g ! j)"
    by (simp add: eq hitBrick_def Let_def same) (simp add: g5_def)
qed

lemma update_no_hit:
  assumes play: "gameState g = playing"
    and none: "\<forall>k<length (bricks g). \<not> (Brick.active (bricks g ! k) \<and>
      ballOverlapsBrick (ball (atBrickCheck rand g)) (bricks g ! k))"
  shows "bricks (update rand g) = bricks g" and "score (update rand g) = score g"
    and "ball (update rand g) = ball (atBrickCheck rand g)"
proof -
  define g5 where "g5 = atBrickCheck rand g"
  have same: "bricks g5 = bricks g" "score g5 = score g" by (simp_all add: g5_def)
  have "checkBallBrickCollision g5 = g5"
    by (rule checkBallBrickCollision_none) (use none in \<open>simp add: same g5_def [symmetric]\<close>)
  then have eq: "update rand g = checkWin g5"
    by (simp add: update_playing [OF play] g5_def)
  show "bricks (update rand g) = bricks g" by (simp add: eq same)
  show "score (update rand g) = score g" by (simp add: eq same)
  show "ball (update rand g) = ball (atBrickCheck rand g)" by (simp add: eq g5_def)
qed

subsection \<open>The paddle branch\<close>

text \<open>
  What the overlap test gives for \<open>hitPosition\<close>: the centre of the ball may be up to a
  radius outside of the paddle on either side.
\<close>

lemma hitPosition_range:
  assumes "ballOverlapsPaddle b p" and "0 < Paddle.width p"
  shows "- (Ball.radius b / Paddle.width p) < hitPosition b p \<and>
         hitPosition b p < 1 + Ball.radius b / Paddle.width p"
proof -
  from assms(1) have "- Ball.radius b < Ball.x b - Paddle.x p"
    and "Ball.x b - Paddle.x p < Paddle.width p + Ball.radius b"
    by (simp_all add: ballOverlapsPaddle_def)
  then have "- Ball.radius b / Paddle.width p < (Ball.x b - Paddle.x p) / Paddle.width p"
    and "(Ball.x b - Paddle.x p) / Paddle.width p
      < (Paddle.width p + Ball.radius b) / Paddle.width p"
    using assms(2) by (simp_all only: divide_strict_right_mono)
  with assms(2) show ?thesis
    by (simp add: hitPosition_def add_divide_distrib)
qed

subsection \<open>Events after the end of a game\<close>

lemma handleKeyDown_terminal:
  assumes "gameState g = gameOver \<or> gameState g = win"
  shows "handleKeyDown rand key g =
     (if key = ''r'' \<or> key = ''R''
      then resetGame rand (g\<lparr>keysPressed := (keysPressed g)(key \<mapsto> True)\<rparr>)
      else g\<lparr>keysPressed := (keysPressed g)(key \<mapsto> True)\<rparr>)"
  using assms by (auto simp add: handleKeyDown_def Let_def)

lemma step_terminal:
  assumes "gameState g = gameOver \<or> gameState g = win" and "\<not> isRestart e"
  shows "\<exists>ks. step e g = g\<lparr>keysPressed := ks\<rparr>"
proof (cases e)
  case (Frame rand)
  have "g = g\<lparr>keysPressed := keysPressed g\<rparr>" by simp
  moreover have "step e g = g" using Frame by (simp add: gameLoop_idle)
  ultimately show ?thesis by metis
next
  case (Update rand)
  have "g = g\<lparr>keysPressed := keysPressed g\<rparr>" by simp
  moreover have "step e g = g" using assms(1) Update by (auto simp add: update_def)
  ultimately show ?thesis by metis
next
  case (KeyDown rand key)
  with assms show ?thesis by (auto simp add: handleKeyDown_terminal)
next
  case (KeyUp key)
  then show ?thesis by (auto simp add: handleKeyUp_def)
qed

lemma run_terminal:
  "gameState g = gameOver \<or> gameState g = win \<Longrightarrow> \<forall>e\<in>set es. \<not> isRestart e \<Longrightarrow>
   \<exists>ks. run es g = g\<lparr>keysPressed := ks\<rparr>"
proof (induction es arbitrary: g)
  case Nil
  have "g = g\<lparr>keysPressed := keysPressed g\<rparr>" by simp
  then show ?case by (metis run.simps(1))
next
  case (Cons e es)
  from Cons.prems obtain ks where ks: "step e g = g\<lparr>keysPressed := ks\<rparr>"
    using step_terminal [of g e] by auto
  have "gameState (g\<lparr>keysPressed := ks\<rparr>) = gameOver \<or> gameState (g\<lparr>keysPressed := ks\<rparr>) = win"
    using Cons.prems(1) by simp
  from Cons.IH [OF this] Cons.prems(2)
  obtain ks' where "run es (g\<lparr>keysPressed := ks\<rparr>) = g\<lparr>keysPressed := ks\<rparr>\<lparr>keysPressed := ks'\<rparr>"
    by auto
  then have "run (e # es) g = g\<lparr>keysPressed := ks'\<rparr>" by (simp add: ks)
  then show ?case by blast
qed

subsection \<open>The bricks by index\<close>

lemma concat_map_upt:
  assumes "0 < n"
  shows "concat (map (\<lambda>r. map (f r) [0..<n]) [0..<m]) =
         map (\<lambda>i. f (i div n) (i mod n)) [0..<m * n]"
proof (induction m)
  case 0
  then show ?case by simp
next
  case (Suc m)
  have "[m * n..<m * n + n] = map (\<lambda>j. j + m * n) [0..<n]"
    by (simp add: map_add_upt add.commute)
  then have "map (\<lambda>i. f (i div n) (i mod n)) [m * n..<m * n + n] =
      map (\<lambda>j. f ((j + m * n) div n) ((j + m * n) mod n)) [0..<n]"
    by (simp add: comp_def)
  also have "\<dots> = map (f m) [0..<n]"
    using assms by (intro map_cong) simp_all
  finally have last: "map (\<lambda>i. f (i div n) (i mod n)) [m * n..<m * n + n] = map (f m) [0..<n]" .
  have "[0..<m * n + n] = [0..<m * n] @ [m * n..<m * n + n]"
    by (rule upt_add_eq_append) simp
  moreover have "Suc m * n = m * n + n" by simp
  ultimately have "[0..<Suc m * n] = [0..<m * n] @ [m * n..<m * n + n]"
    by (simp only:)
  then show ?case by (simp add: Suc.IH last)
qed

lemma newBricks_nth_grid:
  assumes "i < 60"
  shows "newBricks ! i = newBrick (i div 10) (i mod 10)"
proof -
  have eq: "newBricks = map (\<lambda>i. newBrick (i div 10) (i mod 10)) [0..<6 * 10]"
    unfolding newBricks_def BRICK_ROWS_def BRICK_COLS_def
    by (rule concat_map_upt) simp
  show ?thesis using assms by (subst eq) simp
qed

section \<open>The frame outside of play\<close>

text \<open>
  C1. In a state whose phase is not \<open>playing\<close>, \<^verbatim>\<open>update\<close> returns the state it was
  given: ball position and velocity, paddle position, every brick's flag, score and lives
  are the same after the frame as before it.
\<close>

theorem update_frozen:
  "gameState g \<noteq> playing \<Longrightarrow> update rand g = g"
  by (simp add: update_def)

theorem update_frozen_witness:
  "gameState (run [KeyDown (1 / 4) '' '', KeyDown (1 / 4) '' ''] mountedGame) = paused \<and>
   update (1 / 4) (run [KeyDown (1 / 4) '' '', KeyDown (1 / 4) '' ''] mountedGame) =
     run [KeyDown (1 / 4) '' '', KeyDown (1 / 4) '' ''] mountedGame"
  using update_frozen [of "run [KeyDown (1 / 4) '' '', KeyDown (1 / 4) '' ''] mountedGame" "1 / 4"]
  by (simp add: handleKeyDown_def Let_def)

section \<open>Losing a life\<close>

text \<open>
  C2 as stated, with the bottom-most point \<open>y + radius\<close> of the ball, fails in both
  directions. Call \<open>update\<close> in play with the ball at \<open>y = 590\<close> moving down by 4: the
  bottom-most point goes from 598 to 602, across the boundary 600, and \<open>lives\<close> is 3
  after the call as before. Call it with the ball at \<open>y = 606\<close>: the bottom-most point
  is at 614, beyond the boundary, before the call already, and this is the call that
  takes \<open>lives\<close> from 3 to 2.
\<close>

theorem bottom_point_crossing_counterexample:
  "gameState (inPlay 3 (ballAt 100 590 4 4)) = playing \<and>
   Ball.y (ball (inPlay 3 (ballAt 100 590 4 4))) +
     Ball.radius (ball (inPlay 3 (ballAt 100 590 4 4))) \<le> CANVAS_HEIGHT \<and>
   CANVAS_HEIGHT <
     Ball.y (ball (update (1 / 4) (inPlay 3 (ballAt 100 590 4 4)))) +
     Ball.radius (ball (update (1 / 4) (inPlay 3 (ballAt 100 590 4 4)))) \<and>
   lives (inPlay 3 (ballAt 100 590 4 4)) = 3 \<and>
   lives (update (1 / 4) (inPlay 3 (ballAt 100 590 4 4))) = 3 \<and>
   gameState (inPlay 3 (ballAt 100 606 4 4)) = playing \<and>
   CANVAS_HEIGHT <
     Ball.y (ball (inPlay 3 (ballAt 100 606 4 4))) +
     Ball.radius (ball (inPlay 3 (ballAt 100 606 4 4))) \<and>
   lives (inPlay 3 (ballAt 100 606 4 4)) = 3 \<and>
   lives (update (1 / 4) (inPlay 3 (ballAt 100 606 4 4))) = 2"
  unfolding update_above_bottom update_below_bottom by (simp add: constants)

text \<open>
  C2, amended. While the phase is \<open>playing\<close>, \<open>lives\<close> goes down by exactly one in the
  frame in which, after the move, the top-most point \<open>y - radius\<close> of the ball is
  strictly below the bottom boundary (the test of line 303), and in no other frame. That
  frame leaves the phase \<open>playing\<close>, so the next frame does not count the same fall again.
\<close>

theorem lives_decrement:
  "gameState g = playing \<Longrightarrow>
     lives (update rand g) = (if ballFell (ball (moveBall g)) then lives g - 1 else lives g) \<and>
     (ballFell (ball (moveBall g)) \<longrightarrow> gameState (update rand g) \<noteq> playing)"
  by (simp add: update_lives) (simp add: update_playing checkWin_gameState ballFalls_gameState)

theorem lives_decrement_witness:
  "gameState (inPlay 3 (ballAt 100 606 4 4)) = playing \<and>
   ballFell (ball (moveBall (inPlay 3 (ballAt 100 606 4 4)))) \<and>
   lives (inPlay 3 (ballAt 100 606 4 4)) = 3 \<and>
   lives (update (1 / 4) (inPlay 3 (ballAt 100 606 4 4))) = 2 \<and>
   gameState (update (1 / 4) (inPlay 3 (ballAt 100 606 4 4))) \<noteq> playing \<and>
   gameState (inPlay 3 (ballAt 100 590 4 4)) = playing \<and>
   \<not> ballFell (ball (moveBall (inPlay 3 (ballAt 100 590 4 4)))) \<and>
   lives (inPlay 3 (ballAt 100 590 4 4)) = 3 \<and>
   lives (update (1 / 4) (inPlay 3 (ballAt 100 590 4 4))) = 3"
  using lives_decrement [of "inPlay 3 (ballAt 100 606 4 4)" "1 / 4"]
    lives_decrement [of "inPlay 3 (ballAt 100 590 4 4)" "1 / 4"]
  by (simp add: ballFell_def constants)

text \<open>
  C3 as stated fails: the respawned ball does not move down. Call \<open>update\<close> in play with
  three lives and the ball at \<open>y = 606\<close> moving down by 4: the ball falls, two lives
  are left, the phase becomes \<open>ready\<close>, and the vertical velocity of the new ball is
  \<open>- 4\<close>, towards the top of the canvas.
\<close>

theorem respawn_velocity_counterexample:
  "gameState (inPlay 3 (ballAt 100 606 4 4)) = playing \<and>
   ballFell (ball (moveBall (inPlay 3 (ballAt 100 606 4 4)))) \<and>
   0 < lives (update (1 / 4) (inPlay 3 (ballAt 100 606 4 4))) \<and>
   gameState (update (1 / 4) (inPlay 3 (ballAt 100 606 4 4))) = ready \<and>
   Ball.dy (ball (update (1 / 4) (inPlay 3 (ballAt 100 606 4 4)))) = - 4 \<and>
   \<not> 0 < Ball.dy (ball (update (1 / 4) (inPlay 3 (ballAt 100 606 4 4))))"
  by (simp add: update_below_bottom)

text \<open>
  C3, amended. In a frame in which the ball falls and a life is left after the decrement,
  the ball is replaced by a new one at the centre of the field, whose horizontal
  velocity is 4 or \<open>- 4\<close> as the random number decides and whose vertical velocity is
  the fixed \<open>- 4\<close> (upwards, towards the bricks), and the phase becomes \<open>ready\<close>.
\<close>

theorem fall_respawn:
  assumes "gameInv g" "gameState g = playing" "ballFell (ball (moveBall g))" "0 < lives g - 1"
  shows "ball (update rand g) =
           \<lparr>Ball.x = CANVAS_WIDTH / 2, Ball.y = CANVAS_HEIGHT / 2,
            Ball.dx = (if rand > 0.5 then 4 else - 4), Ball.dy = - 4,
            Ball.radius = BALL_RADIUS\<rparr> \<and>
         gameState (update rand g) = ready \<and>
         lives (update rand g) = lives g - 1"
  using assms(4) update_fall_respawn [OF assms] update_fall_gameState [OF assms(1-3)]
    update_lives [OF assms(2)] assms(3)
  by simp

theorem fall_respawn_witness:
  "gameInv (inPlay 3 (ballAt 100 606 4 4)) \<and>
   gameState (inPlay 3 (ballAt 100 606 4 4)) = playing \<and>
   ballFell (ball (moveBall (inPlay 3 (ballAt 100 606 4 4)))) \<and>
   lives (inPlay 3 (ballAt 100 606 4 4)) = 3 \<and>
   ball (update (3 / 4) (inPlay 3 (ballAt 100 606 4 4))) = ballAt 400 300 4 (- 4) \<and>
   ball (update (1 / 4) (inPlay 3 (ballAt 100 606 4 4))) = ballAt 400 300 (- 4) (- 4) \<and>
   gameState (update (3 / 4) (inPlay 3 (ballAt 100 606 4 4))) = ready \<and>
   lives (update (3 / 4) (inPlay 3 (ballAt 100 606 4 4))) = 2"
proof -
  let ?g = "inPlay 3 (ballAt 100 606 4 4)"
  have inv: "gameInv ?g" by (rule gameInv_inPlay) simp_all
  have play: "gameState ?g = playing" by simp
  have fell: "ballFell (ball (moveBall ?g))" by (simp add: ballFell_def constants)
  have three: "lives ?g = 3" by simp
  then have more: "0 < lives ?g - 1" by simp
  from fall_respawn [OF inv play fell more, of "3 / 4"]
    fall_respawn [OF inv play fell more, of "1 / 4"] inv play fell three
  show ?thesis by (simp add: constants)
qed

text \<open>
  C9. When the ball falls in a frame that starts with one life, \<open>lives\<close> becomes 0 and the
  phase becomes \<open>gameOver\<close>; after that, whatever frames and key events follow, as long
  as none of them is the restart command, ball and paddle stay as that frame left them
  (and the phase stays \<open>gameOver\<close>, with no life).
\<close>

theorem last_life_lost:
  assumes "gameInv g" "gameState g = playing" "lives g = 1" "ballFell (ball (moveBall g))"
  shows "lives (update rand g) = 0 \<and> gameState (update rand g) = gameOver \<and>
         (\<forall>es. (\<forall>e\<in>set es. \<not> isRestart e) \<longrightarrow>
            ball (run es (update rand g)) = ball (update rand g) \<and>
            paddle (run es (update rand g)) = paddle (update rand g) \<and>
            gameState (run es (update rand g)) = gameOver \<and>
            lives (run es (update rand g)) = 0)"
proof -
  have lv: "lives (update rand g) = 0"
    using assms(3,4) by (simp add: update_lives [OF assms(2)])
  have gs: "gameState (update rand g) = gameOver"
    using assms(3) by (simp add: update_fall_gameState [OF assms(1,2,4)])
  have "ball (run es (update rand g)) = ball (update rand g) \<and>
        paddle (run es (update rand g)) = paddle (update rand g) \<and>
        gameState (run es (update rand g)) = gameOver \<and>
        lives (run es (update rand g)) = 0"
    if "\<forall>e\<in>set es. \<not> isRestart e" for es
  proof -
    from run_terminal [of "update rand g" es] gs that
    obtain ks where "run es (update rand g) = (update rand g)\<lparr>keysPressed := ks\<rparr>" by auto
    then show ?thesis by (simp add: lv gs)
  qed
  with lv gs show ?thesis by blast
qed

theorem last_life_lost_witness:
  "gameInv (inPlay 1 (ballAt 100 606 4 4)) \<and>
   ballFell (ball (moveBall (inPlay 1 (ballAt 100 606 4 4)))) \<and>
   lives (update (1 / 4) (inPlay 1 (ballAt 100 606 4 4))) = 0 \<and>
   gameState (update (1 / 4) (inPlay 1 (ballAt 100 606 4 4))) = gameOver \<and>
   ball (run [Frame (1 / 4), Update (1 / 2), KeyDown (1 / 4) '' '', KeyDown (1 / 4) ''ArrowLeft'',
              Frame (3 / 4), Update (3 / 4), KeyUp ''ArrowLeft'']
     (update (1 / 4) (inPlay 1 (ballAt 100 606 4 4)))) = ballAt 104 610 4 4 \<and>
   paddle (run [Frame (1 / 4), Update (1 / 2), KeyDown (1 / 4) '' '', KeyDown (1 / 4) ''ArrowLeft'',
              Frame (3 / 4), Update (3 / 4), KeyUp ''ArrowLeft'']
     (update (1 / 4) (inPlay 1 (ballAt 100 606 4 4)))) = initialPaddle"
proof -
  let ?g = "inPlay 1 (ballAt 100 606 4 4)"
  let ?es = "[Frame (1 / 4), Update (1 / 2), KeyDown (1 / 4) '' '', KeyDown (1 / 4) ''ArrowLeft'',
              Frame (3 / 4), Update (3 / 4), KeyUp ''ArrowLeft'']"
  have inv: "gameInv ?g" by (rule gameInv_inPlay) simp_all
  have play: "gameState ?g = playing" by simp
  have one: "lives ?g = 1" by simp
  have fell: "ballFell (ball (moveBall ?g))" by (simp add: ballFell_def constants)
  have noRestart: "\<forall>e\<in>set ?es. \<not> isRestart e" by simp
  have b: "ball (update (1 / 4) ?g) = ballAt 104 610 4 4"
    by (simp add: update_fall [OF inv play fell] ballFalls_ball)
      (simp add: wallCollision_def moveBall_def Let_def constants)
  have p: "paddle (update (1 / 4) ?g) = initialPaddle"
    by (simp add: update_paddle movePaddle_def Let_def held_def initialPaddle_def constants)
  from last_life_lost [OF inv play one fell, of "1 / 4"] noRestart
  have "lives (update (1 / 4) ?g) = 0 \<and> gameState (update (1 / 4) ?g) = gameOver \<and>
      ball (run ?es (update (1 / 4) ?g)) = ball (update (1 / 4) ?g) \<and>
      paddle (run ?es (update (1 / 4) ?g)) = paddle (update (1 / 4) ?g)"
    by blast
  with inv fell b p show ?thesis by simp
qed

text \<open>
  C10. In every state that a sequence of frames and key events reaches from the mounted
  game, \<open>lives\<close> is at least 0 and at most 3. On the way, \<open>lives\<close> is 0 only in the phase
  \<open>gameOver\<close>, where no frame changes it, and a game in play has at least one life.
\<close>

theorem lives_in_range:
  "0 \<le> lives (run es mountedGame) \<and> lives (run es mountedGame) \<le> 3 \<and>
   (lives (run es mountedGame) = 0 \<longrightarrow> gameState (run es mountedGame) = gameOver) \<and>
   (gameState (run es mountedGame) = playing \<longrightarrow> 1 \<le> lives (run es mountedGame))"
  using gameInv_reachable [of es] by (simp add: gameInv_def)

theorem lives_in_range_witness:
  "gameState (run [KeyDown (1 / 4) '' '', Frame (1 / 4), Update (1 / 4)] mountedGame) = playing \<and>
   lives (run [KeyDown (1 / 4) '' '', Frame (1 / 4), Update (1 / 4)] mountedGame) = 3 \<and>
   1 \<le> lives (run [KeyDown (1 / 4) '' '', Frame (1 / 4), Update (1 / 4)] mountedGame) \<and>
   0 \<le> lives (run [KeyDown (1 / 4) '' '', Frame (1 / 4), Update (1 / 4)] mountedGame) \<and>
   lives (run [KeyDown (1 / 4) '' '', Frame (1 / 4), Update (1 / 4)] mountedGame) \<le> 3"
proof -
  let ?es = "[KeyDown (1 / 4) '' '', Frame (1 / 4), Update (1 / 4)]"
  let ?g = "mountedGame\<lparr>keysPressed := [[CHR '' ''] \<mapsto> True], gameState := playing\<rparr>"
  have g: "handleKeyDown (1 / 4) '' '' mountedGame = ?g"
    by (simp add: handleKeyDown_def Let_def)
  have inv: "gameInv ?g"
    using gameInv_handleKeyDown [OF gameInv_mountedGame, of "1 / 4" "'' ''"] by (simp only: g)
  have play: "gameState ?g = playing" by simp
  have nofall: "\<not> ballFell (ball (moveBall ?g))"
    by (simp add: ballFell_def initialBall_def constants)
  have clear: "260 \<le> Ball.y (ball ?g) + Ball.dy (ball ?g) - Ball.radius (ball ?g)"
    by (simp add: initialBall_def constants)
  have nohit: "\<not> ballOverlapsPaddle (ball (moveBall ?g)) (paddle (movePaddle ?g))"
    by (simp add: ballOverlapsPaddle_def) (simp add: initialBall_def initialPaddle_def constants)
  have eq: "update (1 / 4) ?g = movePaddle (wallCollision (moveBall ?g))"
    by (rule update_free [OF inv play nofall clear nohit])
  have r: "run ?es mountedGame = update (1 / 4) ?g"
    by (simp add: g gameLoop_idle)
  have "gameState (run ?es mountedGame) = playing \<and> lives (run ?es mountedGame) = 3"
    by (simp only: r eq) simp
  with lives_in_range [of ?es] show ?thesis by simp
qed

section \<open>The paddle\<close>

text \<open>
  C4. After any sequence of frames and key events from the mounted game, whichever keys
  are held in whichever frames, the paddle's \<open>x\<close> lies between 0 and the width of the
  field less the width of the paddle.
\<close>

theorem paddle_in_bounds:
  "0 \<le> Paddle.x (paddle (run es mountedGame)) \<and>
   Paddle.x (paddle (run es mountedGame)) \<le> CANVAS_WIDTH - PADDLE_WIDTH"
  using gameInv_reachable [of es] by (simp add: gameInv_def)

theorem paddle_in_bounds_witness:
  "Paddle.x (paddle (run [KeyDown (1 / 4) '' '', KeyDown (1 / 4) ''ArrowLeft'', Frame (1 / 4),
      Update (1 / 4)] mountedGame)) = 332 \<and>
   0 \<le> Paddle.x (paddle (run [KeyDown (1 / 4) '' '', KeyDown (1 / 4) ''ArrowLeft'', Frame (1 / 4),
      Update (1 / 4)] mountedGame)) \<and>
   Paddle.x (paddle (run [KeyDown (1 / 4) '' '', KeyDown (1 / 4) ''ArrowLeft'', Frame (1 / 4),
      Update (1 / 4)] mountedGame)) \<le> CANVAS_WIDTH - PADDLE_WIDTH"
  using paddle_in_bounds [of "[KeyDown (1 / 4) '' '', KeyDown (1 / 4) ''ArrowLeft'', Frame (1 / 4),
      Update (1 / 4)]"]
  by (simp add: gameLoop_idle update_paddle handleKeyDown_def Let_def movePaddle_def held_def
      initialPaddle_def constants)

section \<open>Bounces\<close>

text \<open>
  C5. The reflection at the walls and the bounce off a brick keep the square of the
  ball's speed, \<open>dx\<^sup>2 + dy\<^sup>2\<close>, as it was: each of them only changes the sign of a
  component of the velocity, so \<open>\<bar>dx\<bar>\<close> and \<open>\<bar>dy\<bar>\<close> are kept as well. This holds for the
  wall step of \<^verbatim>\<open>update\<close>, for the reversal at one brick, and for the whole scan of
  \<^verbatim>\<open>checkBallBrickCollision\<close>.
\<close>

theorem bounces_preserve_speed:
  "(Ball.dx (ball (wallCollision g)))\<^sup>2 + (Ball.dy (ball (wallCollision g)))\<^sup>2 =
     (Ball.dx (ball g))\<^sup>2 + (Ball.dy (ball g))\<^sup>2 \<and>
   (Ball.dx (reverseBall b brick))\<^sup>2 + (Ball.dy (reverseBall b brick))\<^sup>2 =
     (Ball.dx b)\<^sup>2 + (Ball.dy b)\<^sup>2 \<and>
   (Ball.dx (ball (checkBallBrickCollision g)))\<^sup>2 + (Ball.dy (ball (checkBallBrickCollision g)))\<^sup>2 =
     (Ball.dx (ball g))\<^sup>2 + (Ball.dy (ball g))\<^sup>2 \<and>
   \<bar>Ball.dx (ball (wallCollision g))\<bar> = \<bar>Ball.dx (ball g)\<bar> \<and>
   \<bar>Ball.dy (ball (wallCollision g))\<bar> = \<bar>Ball.dy (ball g)\<bar> \<and>
   \<bar>Ball.dx (ball (checkBallBrickCollision g))\<bar> = \<bar>Ball.dx (ball g)\<bar> \<and>
   \<bar>Ball.dy (ball (checkBallBrickCollision g))\<bar> = \<bar>Ball.dy (ball g)\<bar>"
proof -
  have wall: "\<bar>Ball.dx (ball (wallCollision g))\<bar> = \<bar>Ball.dx (ball g)\<bar>"
      "\<bar>Ball.dy (ball (wallCollision g))\<bar> = \<bar>Ball.dy (ball g)\<bar>"
    by (simp_all add: wallCollision_def Let_def)
  have rev: "\<bar>Ball.dx (reverseBall b' k)\<bar> = \<bar>Ball.dx b'\<bar>"
      "\<bar>Ball.dy (reverseBall b' k)\<bar> = \<bar>Ball.dy b'\<bar>" for b' k
    by (simp_all add: reverseBall_def Let_def)
  have brick: "\<bar>Ball.dx (ball (checkBallBrickCollision g))\<bar> = \<bar>Ball.dx (ball g)\<bar>"
      "\<bar>Ball.dy (ball (checkBallBrickCollision g))\<bar> = \<bar>Ball.dy (ball g)\<bar>"
    using brickLoop_cases [of 0 g]
    by (auto simp add: checkBallBrickCollision_def hitBrick_def Let_def rev)
  have sq: "\<bar>a\<bar> = \<bar>c\<bar> \<Longrightarrow> \<bar>b\<bar> = \<bar>d\<bar> \<Longrightarrow> a\<^sup>2 + b\<^sup>2 = c\<^sup>2 + d\<^sup>2" for a b c d :: real
    by (metis power2_abs)
  show ?thesis
    using wall brick sq [OF wall] sq [OF brick] sq [OF rev] by simp
qed

theorem bounces_preserve_speed_witness:
  "Ball.dx (ball (wallCollision (inPlay 3 (ballAt 796 4 4 (- 4))))) = - 4 \<and>
   Ball.dy (ball (wallCollision (inPlay 3 (ballAt 796 4 4 (- 4))))) = 4 \<and>
   (Ball.dx (ball (wallCollision (inPlay 3 (ballAt 796 4 4 (- 4))))))\<^sup>2 +
     (Ball.dy (ball (wallCollision (inPlay 3 (ballAt 796 4 4 (- 4))))))\<^sup>2 = 32"
  using bounces_preserve_speed [of "inPlay 3 (ballAt 796 4 4 (- 4))"]
  by (simp add: wallCollision_def Let_def constants)

text \<open>
  C6. In a frame in play, when the scan of \<^verbatim>\<open>checkBallBrickCollision\<close> starts (line 330)
  and some active brick overlaps the ball, the frame switches off the first such brick in
  the order of the list (which is the order of creation, row by row), adds the points of
  that brick to the score, and leaves every other brick as it was, however many
  bricks the ball overlaps; when no active brick overlaps the ball, bricks and score stay
  as they are. The same holds of the scan by itself. In any frame the list keeps its
  length, at most one brick goes from active to inactive, and the score grows by the
  points of the bricks that did so.
\<close>

theorem one_brick_per_frame:
  "(gameState g = playing \<and> j < length (bricks g) \<and>
    Brick.active (bricks g ! j) \<and>
    ballOverlapsBrick (ball (atBrickCheck rand g)) (bricks g ! j) \<and>
    (\<forall>k<j. \<not> (Brick.active (bricks g ! k) \<and>
            ballOverlapsBrick (ball (atBrickCheck rand g)) (bricks g ! k))) \<longrightarrow>
      bricks (update rand g) = (bricks g)[j := (bricks g ! j)\<lparr>Brick.active := False\<rparr>] \<and>
      score (update rand g) = score g + Brick.points (bricks g ! j) \<and>
      ball (update rand g) = reverseBall (ball (atBrickCheck rand g)) (bricks g ! j)) \<and>
   (gameState g = playing \<and>
    (\<forall>k<length (bricks g). \<not> (Brick.active (bricks g ! k) \<and>
            ballOverlapsBrick (ball (atBrickCheck rand g)) (bricks g ! k))) \<longrightarrow>
      bricks (update rand g) = bricks g \<and> score (update rand g) = score g) \<and>
   (j < length (bricks g) \<and>
    Brick.active (bricks g ! j) \<and> ballOverlapsBrick (ball g) (bricks g ! j) \<and>
    (\<forall>k<j. \<not> (Brick.active (bricks g ! k) \<and> ballOverlapsBrick (ball g) (bricks g ! k))) \<longrightarrow>
      bricks (checkBallBrickCollision g) = (bricks g)[j := (bricks g ! j)\<lparr>Brick.active := False\<rparr>] \<and>
      score (checkBallBrickCollision g) = score g + Brick.points (bricks g ! j)) \<and>
   ((\<forall>k<length (bricks g).
      \<not> (Brick.active (bricks g ! k) \<and> ballOverlapsBrick (ball g) (bricks g ! k))) \<longrightarrow>
      checkBallBrickCollision g = g) \<and>
   length (bricks (update rand g)) = length (bricks g) \<and>
   card {i. i < length (bricks g) \<and> Brick.active (bricks g ! i) \<and>
            \<not> Brick.active (bricks (update rand g) ! i)} \<le> 1 \<and>
   score (update rand g) =
     score g + (\<Sum>i | i < length (bricks g) \<and> Brick.active (bricks g ! i) \<and>
                       \<not> Brick.active (bricks (update rand g) ! i). Brick.points (bricks g ! i))"
proof -
  let ?off = "{i. i < length (bricks g) \<and> Brick.active (bricks g ! i) \<and>
      \<not> Brick.active (bricks (update rand g) ! i)}"
  have frame_first: "gameState g = playing \<and> j < length (bricks g) \<and>
    Brick.active (bricks g ! j) \<and>
    ballOverlapsBrick (ball (atBrickCheck rand g)) (bricks g ! j) \<and>
    (\<forall>k<j. \<not> (Brick.active (bricks g ! k) \<and>
            ballOverlapsBrick (ball (atBrickCheck rand g)) (bricks g ! k))) \<longrightarrow>
      bricks (update rand g) = (bricks g)[j := (bricks g ! j)\<lparr>Brick.active := False\<rparr>] \<and>
      score (update rand g) = score g + Brick.points (bricks g ! j) \<and>
      ball (update rand g) = reverseBall (ball (atBrickCheck rand g)) (bricks g ! j)"
    using update_hit [of g j rand] by blast
  have frame_none: "gameState g = playing \<and>
    (\<forall>k<length (bricks g). \<not> (Brick.active (bricks g ! k) \<and>
            ballOverlapsBrick (ball (atBrickCheck rand g)) (bricks g ! k))) \<longrightarrow>
      bricks (update rand g) = bricks g \<and> score (update rand g) = score g"
    using update_no_hit [of g rand] by blast
  have first: "j < length (bricks g) \<and>
    Brick.active (bricks g ! j) \<and> ballOverlapsBrick (ball g) (bricks g ! j) \<and>
    (\<forall>k<j. \<not> (Brick.active (bricks g ! k) \<and> ballOverlapsBrick (ball g) (bricks g ! k))) \<longrightarrow>
      bricks (checkBallBrickCollision g) = (bricks g)[j := (bricks g ! j)\<lparr>Brick.active := False\<rparr>] \<and>
      score (checkBallBrickCollision g) = score g + Brick.points (bricks g ! j)"
  proof
    assume "j < length (bricks g) \<and>
      Brick.active (bricks g ! j) \<and> ballOverlapsBrick (ball g) (bricks g ! j) \<and>
      (\<forall>k<j. \<not> (Brick.active (bricks g ! k) \<and> ballOverlapsBrick (ball g) (bricks g ! k)))"
    then have "checkBallBrickCollision g = hitBrick j g"
      by (intro checkBallBrickCollision_first) blast+
    then show "bricks (checkBallBrickCollision g) =
        (bricks g)[j := (bricks g ! j)\<lparr>Brick.active := False\<rparr>] \<and>
      score (checkBallBrickCollision g) = score g + Brick.points (bricks g ! j)"
      by (simp add: hitBrick_def Let_def)
  qed
  have none: "(\<forall>k<length (bricks g).
      \<not> (Brick.active (bricks g ! k) \<and> ballOverlapsBrick (ball g) (bricks g ! k))) \<longrightarrow>
      checkBallBrickCollision g = g"
    using checkBallBrickCollision_none by blast
  have off: "length (bricks (update rand g)) = length (bricks g) \<and> card ?off \<le> 1 \<and>
      score (update rand g) = score g + (\<Sum>i\<in>?off. Brick.points (bricks g ! i))"
    using update_bricks_score [of rand g]
  proof
    assume same: "bricks (update rand g) = bricks g \<and> score (update rand g) = score g"
    then have "?off = {}" by auto
    with same show ?thesis by simp
  next
    assume "\<exists>j<length (bricks g). Brick.active (bricks g ! j) \<and>
      bricks (update rand g) = (bricks g)[j := (bricks g ! j)\<lparr>Brick.active := False\<rparr>] \<and>
      score (update rand g) = score g + Brick.points (bricks g ! j)"
    then obtain j where j: "j < length (bricks g)" "Brick.active (bricks g ! j)"
      "bricks (update rand g) = (bricks g)[j := (bricks g ! j)\<lparr>Brick.active := False\<rparr>]"
      "score (update rand g) = score g + Brick.points (bricks g ! j)"
      by blast
    have "?off = {j}"
      using j(1,2) by (auto simp add: j(3) nth_list_update)
    with j show ?thesis by simp
  qed
  from frame_first frame_none first none off show ?thesis by blast
qed

text \<open>
  Call \<open>update\<close> in play with the ball at \<open>(186, 74)\<close> moving by \<open>(4, - 4)\<close>: when the
  scan starts the ball is at \<open>(190, 70)\<close>, over the gap between the second and the third
  brick of the top row, and overlaps both, which are active. The frame switches off the
  second one, at index 1, adds its 60 points and leaves the third one active.
\<close>

theorem one_brick_per_frame_witness:
  "gameState (inPlay 3 (ballAt 186 74 4 (- 4))) = playing \<and>
   ball (atBrickCheck (1 / 4) (inPlay 3 (ballAt 186 74 4 (- 4)))) = ballAt 190 70 4 (- 4) \<and>
   Brick.active (newBricks ! 1) \<and> ballOverlapsBrick (ballAt 190 70 4 (- 4)) (newBricks ! 1) \<and>
   Brick.active (newBricks ! 2) \<and> ballOverlapsBrick (ballAt 190 70 4 (- 4)) (newBricks ! 2) \<and>
   bricks (update (1 / 4) (inPlay 3 (ballAt 186 74 4 (- 4)))) =
     newBricks[1 := (newBricks ! 1)\<lparr>Brick.active := False\<rparr>] \<and>
   score (update (1 / 4) (inPlay 3 (ballAt 186 74 4 (- 4)))) = 60 \<and>
   \<not> Brick.active (bricks (update (1 / 4) (inPlay 3 (ballAt 186 74 4 (- 4)))) ! 1) \<and>
   Brick.active (bricks (update (1 / 4) (inPlay 3 (ballAt 186 74 4 (- 4)))) ! 2)"
proof -
  let ?g = "inPlay 3 (ballAt 186 74 4 (- 4))"
  let ?b = "ballAt 190 70 4 (- 4)"
  have play: "gameState ?g = playing" by simp
  have b4: "ball (atPaddleCheck (1 / 4) ?g) = ?b"
    by (simp add: ballFalls_ball ballFell_def)
      (simp add: wallCollision_def moveBall_def Let_def constants)
  have "\<not> ballOverlapsPaddle (ball (atPaddleCheck (1 / 4) ?g)) (paddle (atPaddleCheck (1 / 4) ?g))"
    unfolding b4 by (simp add: ballOverlapsPaddle_def) (simp add: initialPaddle_def constants)
  then have "atBrickCheck (1 / 4) ?g = atPaddleCheck (1 / 4) ?g" by (rule no_paddle_hit)
  then have b: "ball (atBrickCheck (1 / 4) ?g) = ?b" by (simp only: b4)
  have len: "1 < length (bricks ?g)" by (simp add: length_newBricks)
  have hit1: "Brick.active (bricks ?g ! 1) \<and> ballOverlapsBrick ?b (bricks ?g ! 1)"
    by (simp add: newBricks_nth_grid newBrick_def ballOverlapsBrick_def constants)
  have hit2: "Brick.active (bricks ?g ! 2) \<and> ballOverlapsBrick ?b (bricks ?g ! 2)"
    by (simp add: newBricks_nth_grid newBrick_def ballOverlapsBrick_def constants)
  have before: "\<forall>k<1. \<not> (Brick.active (bricks ?g ! k) \<and> ballOverlapsBrick ?b (bricks ?g ! k))"
    by (simp add: newBricks_nth_grid newBrick_def ballOverlapsBrick_def constants)
  from one_brick_per_frame [where g = ?g and j = 1 and rand = "1 / 4"] play len hit1 before
  have "bricks (update (1 / 4) ?g) =
      (bricks ?g)[1 := (bricks ?g ! 1)\<lparr>Brick.active := False\<rparr>] \<and>
    score (update (1 / 4) ?g) = score ?g + Brick.points (bricks ?g ! 1)"
    unfolding b by blast
  with play b hit1 hit2 show ?thesis
    by (simp add: length_newBricks newBricks_nth_grid newBrick_def BRICK_ROWS_def)
qed

text \<open>
  C7. The claim is that \<open>hitPosition\<close> lies in \<open>[0, 1]\<close> whenever the paddle branch runs.
  The branch runs as soon as the box around the ball overlaps the paddle, and
  \<open>hitPosition\<close> is taken from the centre of the ball. Call \<open>update\<close> in play with the
  paddle at its initial place (\<open>x = 340\<close>) and the ball at \<open>(330, 552)\<close> moving by
  \<open>(4, 4)\<close>: \<^verbatim>\<open>checkBallPaddleCollision\<close> is called with the ball at \<open>(334, 556)\<close>, 6 to the
  left of the paddle's left end; its branch runs (the ball is put at \<open>y = 552\<close>),
  \<open>hitPosition\<close> is \<open>- 1/20\<close>, and the angle computed from it is beyond the 54 degrees
  that the comment of line 271 gives as the maximum.
\<close>

theorem paddle_edge_hit:
  "gameState (inPlay 3 (ballAt 330 552 4 4)) = playing \<and>
   ball (atPaddleCheck (1 / 4) (inPlay 3 (ballAt 330 552 4 4))) = ballAt 334 556 4 4 \<and>
   paddle (atPaddleCheck (1 / 4) (inPlay 3 (ballAt 330 552 4 4))) = initialPaddle \<and>
   ballOverlapsPaddle (ballAt 334 556 4 4) initialPaddle \<and>
   hitPosition (ballAt 334 556 4 4) initialPaddle = - (1 / 20) \<and>
   \<not> 0 \<le> hitPosition (ballAt 334 556 4 4) initialPaddle \<and>
   54 * pi / 180 < \<bar>(hitPosition (ballAt 334 556 4 4) initialPaddle - 0.5) * pi * 0.6\<bar> \<and>
   Ball.y (ball (checkBallPaddleCollision (atPaddleCheck (1 / 4) (inPlay 3 (ballAt 330 552 4 4)))))
     = 552 \<and>
   Ball.y (ball (update (1 / 4) (inPlay 3 (ballAt 330 552 4 4)))) = 552"
proof -
  let ?g = "inPlay 3 (ballAt 330 552 4 4)"
  let ?g4 = "atPaddleCheck (1 / 4) ?g"
  let ?b = "ballAt 334 556 4 4"
  have play: "gameState ?g = playing" by simp
  have b: "ball ?g4 = ?b"
    by (simp add: ballFalls_ball ballFell_def)
      (simp add: wallCollision_def moveBall_def Let_def constants)
  have p: "paddle ?g4 = initialPaddle"
  proof -
    have "paddle ?g4 = paddle (movePaddle ?g)" by (rule movePaddle_paddle) simp_all
    then show ?thesis
      by (simp add: movePaddle_def Let_def held_def initialPaddle_def constants)
  qed
  have ov: "ballOverlapsPaddle ?b initialPaddle"
    by (simp add: ballOverlapsPaddle_def initialPaddle_def constants)
  have hp: "hitPosition ?b initialPaddle = - (1 / 20)"
    by (simp add: hitPosition_def initialPaddle_def constants)
  have neg: "\<not> 0 \<le> hitPosition ?b initialPaddle" unfolding hp by simp
  have "\<bar>(- (1 / 20) - 0.5) * pi * 0.6\<bar> = 0.33 * pi"
    by (simp add: abs_mult)
  then have "54 * pi / 180 < \<bar>(- (1 / 20) - 0.5) * pi * 0.6\<bar>"
    by simp
  then have ang: "54 * pi / 180 < \<bar>(hitPosition ?b initialPaddle - 0.5) * pi * 0.6\<bar>"
    unfolding hp .
  have ov': "ballOverlapsPaddle (ball ?g4) (paddle ?g4)" unfolding b p by (rule ov)
  have "Ball.y (ball (checkBallPaddleCollision ?g4)) = Paddle.y (paddle ?g4) - Ball.radius (ball ?g4)"
    using ov' by (simp add: checkBallPaddleCollision_def Let_def)
  also have "\<dots> = 552"
    unfolding b p by (simp add: initialPaddle_def constants)
  finally have y4: "Ball.y (ball (checkBallPaddleCollision ?g4)) = 552" .
  have "Ball.y (ball (update (1 / 4) ?g)) = Ball.y (ball (checkBallPaddleCollision ?g4))"
    by (simp add: update_playing [OF play])
  with y4 have y: "Ball.y (ball (update (1 / 4) ?g)) = 552" by simp
  from play b p ov hp neg ang y4 y show ?thesis by (intro conjI)
qed

section \<open>The phases that end a game\<close>

text \<open>
  C8. In the phases \<open>gameOver\<close> and \<open>win\<close>, a key other than \<^verbatim>\<open>r\<close> and \<^verbatim>\<open>R\<close> going down
  (the space bar among them), a key going up and a frame leave phase, score, lives, ball,
  paddle and bricks as they are: the only thing written is the entry of the key in
  \<^verbatim>\<open>keysPressed\<close>. The key \<^verbatim>\<open>r\<close> or \<^verbatim>\<open>R\<close> going down makes the phase \<open>ready\<close>, the
  score 0 and the lives 3, puts back the full grid with every brick active, and puts
  ball and paddle at their initial positions.
\<close>

theorem terminal_phase_commands:
  assumes "gameState g = gameOver \<or> gameState g = win"
  shows "(key \<noteq> ''r'' \<and> key \<noteq> ''R'' \<longrightarrow>
            handleKeyDown rand key g = g\<lparr>keysPressed := (keysPressed g)(key \<mapsto> True)\<rparr>) \<and>
         handleKeyUp key g = g\<lparr>keysPressed := (keysPressed g)(key \<mapsto> False)\<rparr> \<and>
         update rand g = g \<and>
         (key = ''r'' \<or> key = ''R'' \<longrightarrow>
            gameState (handleKeyDown rand key g) = ready \<and>
            score (handleKeyDown rand key g) = 0 \<and>
            lives (handleKeyDown rand key g) = 3 \<and>
            bricks (handleKeyDown rand key g) = newBricks \<and>
            (\<forall>b\<in>set (bricks (handleKeyDown rand key g)). Brick.active b) \<and>
            Ball.x (ball (handleKeyDown rand key g)) = Ball.x initialBall \<and>
            Ball.y (ball (handleKeyDown rand key g)) = Ball.y initialBall \<and>
            Paddle.x (paddle (handleKeyDown rand key g)) = Paddle.x initialPaddle \<and>
            (gameInv g \<longrightarrow> paddle (handleKeyDown rand key g) = initialPaddle))"
proof -
  have up: "update rand g = g" using assms by (auto simp add: update_def)
  have other: "key \<noteq> ''r'' \<and> key \<noteq> ''R'' \<longrightarrow>
      handleKeyDown rand key g = g\<lparr>keysPressed := (keysPressed g)(key \<mapsto> True)\<rparr>"
    by (simp add: handleKeyDown_terminal [OF assms])
  have restart: "key = ''r'' \<or> key = ''R'' \<longrightarrow>
            gameState (handleKeyDown rand key g) = ready \<and>
            score (handleKeyDown rand key g) = 0 \<and>
            lives (handleKeyDown rand key g) = 3 \<and>
            bricks (handleKeyDown rand key g) = newBricks \<and>
            (\<forall>b\<in>set (bricks (handleKeyDown rand key g)). Brick.active b) \<and>
            Ball.x (ball (handleKeyDown rand key g)) = Ball.x initialBall \<and>
            Ball.y (ball (handleKeyDown rand key g)) = Ball.y initialBall \<and>
            Paddle.x (paddle (handleKeyDown rand key g)) = Paddle.x initialPaddle \<and>
            (gameInv g \<longrightarrow> paddle (handleKeyDown rand key g) = initialPaddle)"
    by (simp add: handleKeyDown_terminal [OF assms] resetGame_def Let_def initBricks_def
        resetBall_def initialBall_def initialPaddle_def newBricks_active gameInv_def)
  from up other restart show ?thesis by (simp add: handleKeyUp_def)
qed

theorem terminal_phase_commands_witness:
  "handleKeyDown (1 / 4) '' '' (mountedGame\<lparr>gameState := gameOver, score := 120, lives := 0\<rparr>) =
     mountedGame\<lparr>gameState := gameOver, score := 120, lives := 0,
       keysPressed := [[CHR '' ''] \<mapsto> True]\<rparr> \<and>
   update (1 / 4) (mountedGame\<lparr>gameState := gameOver, score := 120, lives := 0\<rparr>) =
     mountedGame\<lparr>gameState := gameOver, score := 120, lives := 0\<rparr> \<and>
   gameState (handleKeyDown (1 / 4) ''r''
     (mountedGame\<lparr>gameState := gameOver, score := 120, lives := 0\<rparr>)) = ready \<and>
   score (handleKeyDown (1 / 4) ''r''
     (mountedGame\<lparr>gameState := gameOver, score := 120, lives := 0\<rparr>)) = 0 \<and>
   lives (handleKeyDown (1 / 4) ''r''
     (mountedGame\<lparr>gameState := gameOver, score := 120, lives := 0\<rparr>)) = 3 \<and>
   bricks (handleKeyDown (1 / 4) ''r''
     (mountedGame\<lparr>gameState := gameOver, score := 120, lives := 0\<rparr>)) = newBricks"
  using terminal_phase_commands
      [of "mountedGame\<lparr>gameState := gameOver, score := 120, lives := 0\<rparr>" "'' ''" "1 / 4"]
    terminal_phase_commands
      [of "mountedGame\<lparr>gameState := gameOver, score := 120, lives := 0\<rparr>" "''r''" "1 / 4"]
  by simp

end
